theory Spec2Isabelle
  imports Main "HOL-Library.Char_ord"
begin

section \<open>Python values and failures\<close>

text \<open>
  The two modules \<^verbatim>\<open>propositions/syntax.py\<close> and \<^verbatim>\<open>propositions/semantics.py\<close> are
  embedded function by function.  A Python call either returns a value or raises; the
  model returns \<open>Inr v\<close> or \<open>Inl e\<close>.  Python's \<^verbatim>\<open>None\<close> is the HOL \<open>None\<close> of an
  option type wherever the source can produce it.  Strings are lists of characters; the
  model covers ASCII text, on which \<^verbatim>\<open>str.isdigit\<close> accepts exactly the non-empty
  strings over \<^verbatim>\<open>0\<close> .. \<^verbatim>\<open>9\<close>.  The interpreter's recursion limit is not modelled.
\<close>

datatype py_error = IndexError | AssertionError | AttributeError | KeyError

type_synonym 'a result = "py_error + 'a"

definition digit_char :: "char \<Rightarrow> bool" where
  "digit_char c = (CHR ''0'' \<le> c \<and> c \<le> CHR ''9'')"

definition isdigit :: "string \<Rightarrow> bool" where
  "isdigit s = (s \<noteq> [] \<and> list_all digit_char s)"

section \<open>Token classifiers (syntax.py)\<close>

text \<open>
  \<^verbatim>\<open>is_variable\<close> reads \<^verbatim>\<open>string[0]\<close> before anything else, so the empty string
  raises \<^verbatim>\<open>IndexError\<close>.
\<close>

definition is_variable :: "string \<Rightarrow> bool result" where
  "is_variable string =
     (case string of
        [] \<Rightarrow> Inl IndexError
      | c # cs \<Rightarrow> Inr (CHR ''p'' \<le> c \<and> c \<le> CHR ''z'' \<and> (length string = 1 \<or> isdigit cs)))"

definition is_constant :: "string \<Rightarrow> bool" where
  "is_constant string = (string = ''T'' \<or> string = ''F'')"

definition is_unary :: "string \<Rightarrow> bool" where
  "is_unary string = (string = ''~'')"

definition is_binary :: "string \<Rightarrow> bool" where
  "is_binary string = (string = ''&'' \<or> string = ''|'' \<or> string = ''->'')"

section \<open>Formula objects (syntax.py)\<close>

text \<open>
  The class has the three fields \<^verbatim>\<open>root: str\<close>, \<^verbatim>\<open>first: Optional[Formula]\<close> and
  \<^verbatim>\<open>second: Optional[Formula]\<close>.  A field that \<^verbatim>\<open>__init__\<close> leaves unassigned is
  \<open>None\<close> here.
\<close>

datatype formula = Formula (root: string) (first: "formula option") (second: "formula option")

text \<open>\<^verbatim>\<open>Formula.__init__\<close> with its assertions.\<close>

definition Formula_init :: "string \<Rightarrow> formula option \<Rightarrow> formula option \<Rightarrow> formula result" where
  "Formula_init r a b =
     (case is_variable r of
        Inl e \<Rightarrow> Inl e
      | Inr v \<Rightarrow>
          if v \<or> is_constant r then
            (if a = None \<and> b = None then Inr (Formula r None None) else Inl AssertionError)
          else if is_unary r then
            (if a \<noteq> None \<and> b = None then Inr (Formula r a None) else Inl AssertionError)
          else if \<not> is_binary r then Inl AssertionError
          else if a \<noteq> None \<and> b \<noteq> None then Inr (Formula r a b)
          else Inl AssertionError)"

text \<open>
  The formula objects a program can hold are the ones \<^verbatim>\<open>__init__\<close> returned, built
  from operands that are such objects themselves (the class is frozen).
\<close>

fun constructed :: "formula \<Rightarrow> bool" where
  "constructed (Formula r a b) =
     (Formula_init r a b = Inr (Formula r a b)
      \<and> (case a of None \<Rightarrow> True | Some x \<Rightarrow> constructed x)
      \<and> (case b of None \<Rightarrow> True | Some y \<Rightarrow> constructed y))"

text \<open>\<^verbatim>\<open>Formula.__repr__\<close>; \<^verbatim>\<open>str(None)\<close> is the text \<^verbatim>\<open>None\<close>.\<close>

fun repr :: "formula \<Rightarrow> string result" where
  "repr (Formula r a b) =
     (case is_variable r of
        Inl e \<Rightarrow> Inl e
      | Inr v \<Rightarrow>
          if v \<or> is_constant r then Inr r
          else if is_unary r then
            (case (case a of None \<Rightarrow> Inr ''None'' | Some x \<Rightarrow> repr x) of
               Inl e \<Rightarrow> Inl e
             | Inr sa \<Rightarrow> Inr (r @ sa))
          else
            (case (case a of None \<Rightarrow> Inr ''None'' | Some x \<Rightarrow> repr x) of
               Inl e \<Rightarrow> Inl e
             | Inr sa \<Rightarrow>
                 (case (case b of None \<Rightarrow> Inr ''None'' | Some y \<Rightarrow> repr y) of
                    Inl e \<Rightarrow> Inl e
                  | Inr sb \<Rightarrow> Inr (''('' @ sa @ r @ sb @ '')''))))"

text \<open>\<^verbatim>\<open>Formula.__eq__\<close> compares the two string representations.\<close>

definition formula_eq :: "formula \<Rightarrow> formula \<Rightarrow> bool result" where
  "formula_eq f g =
     (case repr f of
        Inl e \<Rightarrow> Inl e
      | Inr sf \<Rightarrow> (case repr g of Inl e \<Rightarrow> Inl e | Inr sg \<Rightarrow> Inr (sf = sg)))"

text \<open>\<^verbatim>\<open>Formula.variables\<close>; a method call on \<^verbatim>\<open>None\<close> raises \<^verbatim>\<open>AttributeError\<close>.\<close>

fun variables :: "formula \<Rightarrow> string set result" where
  "variables (Formula r a b) =
     (case is_variable r of
        Inl e \<Rightarrow> Inl e
      | Inr v \<Rightarrow>
          if v then Inr {r}
          else if is_constant r then Inr {}
          else if is_unary r then
            (case a of None \<Rightarrow> Inl AttributeError | Some x \<Rightarrow> variables x)
          else
            (case (case a of None \<Rightarrow> Inl AttributeError | Some x \<Rightarrow> variables x) of
               Inl e \<Rightarrow> Inl e
             | Inr va \<Rightarrow>
                 (case (case b of None \<Rightarrow> Inl AttributeError | Some y \<Rightarrow> variables y) of
                    Inl e \<Rightarrow> Inl e
                  | Inr vb \<Rightarrow> Inr (va \<union> vb))))"

section \<open>The parser (syntax.py)\<close>

text \<open>
  \<^verbatim>\<open>Formula.parse_variable\<close>: the \<^verbatim>\<open>while\<close> loop over the index \<open>i\<close>, entered with
  \<^verbatim>\<open>cur_char = string[i]\<close>.
\<close>

function parse_variable_loop ::
  "string \<Rightarrow> nat \<Rightarrow> string \<Rightarrow> char \<Rightarrow> (formula option \<times> string) result" where
  "parse_variable_loop string i current_token cur_char =
     (if isdigit [cur_char] then
        (if i + 1 < length string then
           parse_variable_loop string (i + 1) (current_token @ [cur_char]) (string ! (i + 1))
         else
           (case Formula_init (current_token @ [cur_char]) None None of
              Inl e \<Rightarrow> Inl e
            | Inr f \<Rightarrow> Inr (Some f, '''')))
      else
        (case Formula_init current_token None None of
           Inl e \<Rightarrow> Inl e
         | Inr f \<Rightarrow> Inr (Some f, drop i string)))"
  by pat_completeness auto
termination
  by (relation "measure (\<lambda>(string, i, current_token, cur_char). length string - i)") auto

declare parse_variable_loop.simps [simp del]

definition parse_variable :: "string \<Rightarrow> (formula option \<times> string) result" where
  "parse_variable string =
     (if 0 < length string then
        (case is_variable [string ! 0] of
           Inl e \<Rightarrow> Inl e
         | Inr v \<Rightarrow>
             if v then
               (if 1 < length string then parse_variable_loop string 1 [string ! 0] (string ! 1)
                else
                  (case Formula_init [string ! 0] None None of
                     Inl e \<Rightarrow> Inl e
                   | Inr f \<Rightarrow> Inr (Some f, drop 1 string)))
             else Inr (None, ''error parsing variable''))
      else Inr (None, ''error parsing variable''))"

text \<open>\<^verbatim>\<open>Formula.parse_operator\<close>.\<close>

definition parse_operator :: "string \<Rightarrow> string option \<times> string" where
  "parse_operator string =
     (if 0 < length string then
        (case (if string ! 0 = CHR ''-'' then
                 (if 1 < length string \<and> string ! 1 = CHR ''>'' then Some (''->'', 1) else None)
               else Some ([string ! 0], 0)) of
           None \<Rightarrow> (None, ''invalid string expected >'')
         | Some (current_token, i) \<Rightarrow>
             if is_binary current_token then (Some current_token, drop (i + 1) string)
             else (None, ''invalid string for operator''))
      else (None, ''invalid string for operator''))"

text \<open>A successful sub-parser returns a proper suffix of its input.\<close>

lemma parse_operator_shorter:
  "parse_operator s = (Some op, r) \<Longrightarrow> length r < length s"
  by (auto simp: parse_operator_def split: if_splits option.splits)

lemma parse_variable_loop_shorter:
  "parse_variable_loop s i tok c = Inr (Some f, r) \<Longrightarrow> 0 < i \<Longrightarrow> i < length s \<Longrightarrow>
   length r < length s"
proof (induction s i tok c rule: parse_variable_loop.induct)
  case (1 s i tok c)
  show ?case
  proof (cases "isdigit [c] \<and> i + 1 < length s")
    case True
    with "1.prems" "1.IH" show ?thesis by (simp add: parse_variable_loop.simps[of s i])
  next
    case False
    with "1.prems" show ?thesis
      by (auto simp: parse_variable_loop.simps[of s i] split: if_splits sum.splits)
  qed
qed

lemma parse_variable_shorter:
  "parse_variable s = Inr (Some f, r) \<Longrightarrow> length r < length s"
  by (auto simp: parse_variable_def split: if_splits sum.splits
           dest: parse_variable_loop_shorter)

text \<open>
  \<^verbatim>\<open>Formula._parse_prefix\<close>.  The second component of the pair is the unparsed
  suffix after a formula and an error message after \<^verbatim>\<open>None\<close>.  A formula object is
  always truthy, so \<^verbatim>\<open>if var_formula:\<close> tests for \<^verbatim>\<open>None\<close>.
\<close>

function parse_prefix :: "string \<Rightarrow> (formula option \<times> string) result" where
  "parse_prefix string =
     (if string = [] then Inr (None, ''Error, empty string'')
      else if [string ! 0] = ''('' then
        (case parse_prefix (drop 1 string) of
           Inl e \<Rightarrow> Inl e
         | Inr (first_var_formula, string_suffix) \<Rightarrow>
             if first_var_formula = None then Inr (None, ''error parsing string all formula'')
             else
               (case parse_operator string_suffix of
                  (operator_str, string_suffix2) \<Rightarrow>
                    (case operator_str of
                       None \<Rightarrow> Inr (None, ''error parsing string all formula'')
                     | Some op \<Rightarrow>
                         (case parse_prefix string_suffix2 of
                            Inl e \<Rightarrow> Inl e
                          | Inr (second_var_formula, string_suffix3) \<Rightarrow>
                              if second_var_formula = None then
                                Inr (None, ''error parsing string all formula'')
                              else if 0 < length string_suffix3 \<and> string_suffix3 ! 0 = CHR '')'' then
                                (case Formula_init op first_var_formula second_var_formula of
                                   Inl e \<Rightarrow> Inl e
                                 | Inr f \<Rightarrow> Inr (Some f, drop 1 string_suffix3))
                              else Inr (None, ''error parsing string all formula'')))))
      else
        (case is_variable [string ! 0] of
           Inl e \<Rightarrow> Inl e
         | Inr v \<Rightarrow>
             if v then parse_variable string
             else if is_constant [string ! 0] then
               (case Formula_init [string ! 0] None None of
                  Inl e \<Rightarrow> Inl e
                | Inr f \<Rightarrow> Inr (Some f, drop 1 string))
             else if is_unary [string ! 0] then
               (case parse_prefix (drop 1 string) of
                  Inl e \<Rightarrow> Inl e
                | Inr (var_formula, string_suffix) \<Rightarrow>
                    if var_formula \<noteq> None then
                      (case Formula_init ''~'' var_formula None of
                         Inl e \<Rightarrow> Inl e
                       | Inr f \<Rightarrow> Inr (Some f, string_suffix))
                    else Inr (None, ''invalid string''))
             else Inr (None, ''invalid string'')))"
  by pat_completeness auto

lemma parse_prefix_shorter_dom:
  "parse_prefix_dom s \<Longrightarrow> parse_prefix s = Inr (Some f, r) \<Longrightarrow> length r < length s"
proof (induction s arbitrary: f r rule: parse_prefix.pinduct)
  case (1 s)
  note eq = parse_prefix.psimps[OF "1.hyps"]
  show ?case
  proof (cases "s = []")
    case True
    with "1.prems" eq show ?thesis by simp
  next
    case ne: False
    show ?thesis
    proof (cases "[s ! 0] = ''(''")
      case True
      from "1.prems" ne True eq obtain f1 r1 op r2 f2 r3 where
        a: "parse_prefix (drop 1 s) = Inr (Some f1, r1)" and
        b: "parse_operator r1 = (Some op, r2)" and
        c: "parse_prefix r2 = Inr (Some f2, r3)" and
        d: "r = drop 1 r3"
        by (auto split: if_splits sum.splits prod.splits option.splits)
      from "1.IH"(1)[OF ne True a] have l1: "length r1 < length (drop 1 s)" .
      from parse_operator_shorter[OF b] have l2: "length r2 < length r1" .
      have l3: "length r3 < length r2"
        using "1.IH"(2)[of "(Some f1, r1)" "Some f1" r1 "Some op" r2 op f2 r3] ne True a b c
        by simp
      from l1 l2 l3 d show ?thesis by simp
    next
      case np: False
      from ne have pos: "0 < length s" by simp
      from ne obtain v where v: "is_variable [s ! 0] = Inr v"
        by (simp add: is_variable_def)
      show ?thesis
      proof (cases v)
        case True
        with "1.prems" ne np v eq have "parse_variable s = Inr (Some f, r)" by simp
        then show ?thesis by (rule parse_variable_shorter)
      next
        case nv: False
        show ?thesis
        proof (cases "is_constant [s ! 0]")
          case True
          with "1.prems" ne np v nv eq have "r = drop 1 s"
            by (auto split: sum.splits)
          with pos show ?thesis by simp
        next
          case nc: False
          with "1.prems" ne np v nv eq have u: "is_unary [s ! 0]"
            by (auto split: if_splits)
          with "1.prems" ne np v nv nc eq obtain g where
            "parse_prefix (drop 1 s) = Inr (Some g, r)"
            by (auto split: if_splits sum.splits prod.splits option.splits)
          from "1.IH"(3)[OF ne np v _ nc u this] nv pos show ?thesis by simp
        qed
      qed
    qed
  qed
qed

termination parse_prefix
proof (relation "measure length")
  show "wf (measure length)" by simp
next
  fix string :: string
  assume "string \<noteq> []"
  then show "(drop 1 string, string) \<in> measure length" by simp
next
  fix string :: string and b x y xa ya x2
  assume "string \<noteq> []" "parse_prefix (drop 1 string) = Inr b" "(x, y) = b" "x \<noteq> None"
    "(xa, ya) = parse_operator y" "xa = Some x2" "parse_prefix_dom (drop 1 string)"
  then show "(ya, string) \<in> measure length"
    using parse_prefix_shorter_dom[of "drop 1 string" "the x" y] parse_operator_shorter[of y x2 ya]
    by auto
next
  fix string :: string
  assume "string \<noteq> []"
  then show "(drop 1 string, string) \<in> measure length" by simp
qed

declare parse_prefix.simps [simp del]

text \<open>\<^verbatim>\<open>Formula.is_formula\<close>: the result of \<^verbatim>\<open>_parse_prefix\<close> is a pair, never \<^verbatim>\<open>None\<close>.\<close>

definition is_formula :: "string \<Rightarrow> bool result" where
  "is_formula string =
     (case parse_prefix string of
        Inl e \<Rightarrow> Inl e
      | Inr res \<Rightarrow> Inr (snd res = []))"

text \<open>\<^verbatim>\<open>Formula.parse\<close>.\<close>

definition parse :: "string \<Rightarrow> formula option result" where
  "parse string =
     (case is_formula string of
        Inl e \<Rightarrow> Inl e
      | Inr ok \<Rightarrow>
          if \<not> ok then Inl AssertionError
          else (case parse_prefix string of Inl e \<Rightarrow> Inl e | Inr res \<Rightarrow> Inr (fst res)))"

section \<open>Substitution (syntax.py)\<close>

text \<open>
  A dictionary is an association list with distinct keys, in insertion order.
  The bodies of \<^verbatim>\<open>substitute_variables\<close> and \<^verbatim>\<open>substitute_operators\<close> consist of
  the loop of assertions over the keys; control then reaches the end of the function,
  which returns \<^verbatim>\<open>None\<close>.
\<close>

fun substitute_variables_loop :: "string list \<Rightarrow> formula option result" where
  "substitute_variables_loop [] = Inr None"
| "substitute_variables_loop (variable # keys) =
     (case is_variable variable of
        Inl e \<Rightarrow> Inl e
      | Inr v \<Rightarrow> if \<not> v then Inl AssertionError else substitute_variables_loop keys)"

definition substitute_variables :: "formula \<Rightarrow> (string \<times> formula) list \<Rightarrow> formula option result" where
  "substitute_variables self substitution_map = substitute_variables_loop (map fst substitution_map)"

fun substitute_operators_loop ::
  "string list \<Rightarrow> (string \<times> formula) list \<Rightarrow> formula option result" where
  "substitute_operators_loop [] substitution_map = Inr None"
| "substitute_operators_loop (operator # keys) substitution_map =
     (if \<not> (is_binary operator \<or> is_unary operator \<or> is_constant operator) then Inl AssertionError
      else
        (case (case map_of substitution_map operator of
                 None \<Rightarrow> Inl KeyError
               | Some template \<Rightarrow> variables template) of
           Inl e \<Rightarrow> Inl e
         | Inr vs \<Rightarrow>
             if \<not> vs \<subseteq> {''p'', ''q''} then Inl AssertionError
             else substitute_operators_loop keys substitution_map))"

definition substitute_operators :: "formula \<Rightarrow> (string \<times> formula) list \<Rightarrow> formula option result" where
  "substitute_operators self substitution_map =
     substitute_operators_loop (map fst substitution_map) substitution_map"

section \<open>Models and evaluation (semantics.py)\<close>

type_synonym model = "(string \<times> bool) list"

text \<open>\<^verbatim>\<open>d.get(k)\<close> and \<^verbatim>\<open>d[k] = v\<close> on a dictionary.\<close>

definition dict_get :: "('k \<times> 'v) list \<Rightarrow> 'k \<Rightarrow> 'v option" where
  "dict_get d k = map_of d k"

fun dict_set :: "('k \<times> 'v) list \<Rightarrow> 'k \<Rightarrow> 'v \<Rightarrow> ('k \<times> 'v) list" where
  "dict_set [] k v = [(k, v)]"
| "dict_set ((k', v') # d) k v = (if k' = k then (k, v) # d else (k', v') # dict_set d k v)"

text \<open>Truthiness of a value that is \<^verbatim>\<open>True\<close>, \<^verbatim>\<open>False\<close> or \<^verbatim>\<open>None\<close>.\<close>

definition truthy :: "bool option \<Rightarrow> bool" where
  "truthy x = (x = Some True)"

fun is_model_loop :: "string list \<Rightarrow> bool result" where
  "is_model_loop [] = Inr True"
| "is_model_loop (key # keys) =
     (case is_variable key of
        Inl e \<Rightarrow> Inl e
      | Inr v \<Rightarrow> if \<not> v then Inr False else is_model_loop keys)"

definition is_model :: "model \<Rightarrow> bool result" where
  "is_model model = is_model_loop (map fst model)"

text \<open>The module-level \<^verbatim>\<open>variables(model)\<close>.\<close>

definition model_variables :: "model \<Rightarrow> string list result" where
  "model_variables model =
     (case is_model model of
        Inl e \<Rightarrow> Inl e
      | Inr ok \<Rightarrow> if \<not> ok then Inl AssertionError else Inr (map fst model))"

text \<open>
  \<^verbatim>\<open>evaluate\<close>.  Both assertions run at every call.  \<^verbatim>\<open>and\<close> and \<^verbatim>\<open>or\<close> evaluate
  their second operand only when the first does not decide; the chain of tests has no
  final \<^verbatim>\<open>else\<close>, so a root that matches none of them returns \<^verbatim>\<open>None\<close>.
\<close>

fun evaluate :: "formula \<Rightarrow> model \<Rightarrow> bool option result" where
  "evaluate (Formula r a b) model =
     (case is_model model of
        Inl e \<Rightarrow> Inl e
      | Inr ok \<Rightarrow>
      if \<not> ok then Inl AssertionError
      else
     (case variables (Formula r a b) of
        Inl e \<Rightarrow> Inl e
      | Inr vs \<Rightarrow>
     (case model_variables model of
        Inl e \<Rightarrow> Inl e
      | Inr ks \<Rightarrow>
      if \<not> vs \<subseteq> set ks then Inl AssertionError
      else
     (case is_variable r of
        Inl e \<Rightarrow> Inl e
      | Inr v \<Rightarrow>
      if v then Inr (dict_get model r)
      else if r = ''F'' then Inr (Some False)
      else if r = ''T'' then Inr (Some True)
      else if is_unary r then
        (case (case a of None \<Rightarrow> Inl AttributeError | Some x \<Rightarrow> evaluate x model) of
           Inl e \<Rightarrow> Inl e
         | Inr va \<Rightarrow> Inr (Some (\<not> truthy va)))
      else if r = ''&'' then
        (case (case a of None \<Rightarrow> Inl AttributeError | Some x \<Rightarrow> evaluate x model) of
           Inl e \<Rightarrow> Inl e
         | Inr va \<Rightarrow>
             if truthy va then (case b of None \<Rightarrow> Inl AttributeError | Some y \<Rightarrow> evaluate y model)
             else Inr va)
      else if r = ''|'' then
        (case (case a of None \<Rightarrow> Inl AttributeError | Some x \<Rightarrow> evaluate x model) of
           Inl e \<Rightarrow> Inl e
         | Inr va \<Rightarrow>
             if truthy va then Inr va
             else (case b of None \<Rightarrow> Inl AttributeError | Some y \<Rightarrow> evaluate y model))
      else if r = ''->'' then
        (case (case a of None \<Rightarrow> Inl AttributeError | Some x \<Rightarrow> evaluate x model) of
           Inl e \<Rightarrow> Inl e
         | Inr left_res \<Rightarrow>
             (case (case b of None \<Rightarrow> Inl AttributeError | Some y \<Rightarrow> evaluate y model) of
                Inl e \<Rightarrow> Inl e
              | Inr right_res \<Rightarrow>
                  if left_res = Some False \<or> (truthy left_res \<and> truthy right_res) then Inr (Some True)
                  else Inr (Some False)))
      else Inr None))))"

section \<open>Enumerating models (semantics.py)\<close>

text \<open>
  \<^verbatim>\<open>itertools.product(pool, repeat=n)\<close> as the library documents it: starting from the one
  empty tuple, every round extends each tuple so far by each element of the pool.
\<close>

definition product_step :: "'a list \<Rightarrow> 'a list list \<Rightarrow> 'a list list" where
  "product_step pool result = concat (map (\<lambda>x. map (\<lambda>y. x @ [y]) pool) result)"

definition itertools_product :: "'a list \<Rightarrow> nat \<Rightarrow> 'a list list" where
  "itertools_product pool n = (product_step pool ^^ n) [[]]"

fun all_models_assert :: "string list \<Rightarrow> unit result" where
  "all_models_assert [] = Inr ()"
| "all_models_assert (v # vs) =
     (case is_variable v of
        Inl e \<Rightarrow> Inl e
      | Inr ok \<Rightarrow> if \<not> ok then Inl AssertionError else all_models_assert vs)"

text \<open>
  The inner loop \<^verbatim>\<open>for i, v in enumerate(variables): cur_dict[v] = assignment[i]\<close>;
  the assignment has one entry per variable, so the index is in range.
\<close>

definition cur_dict_of :: "string list \<Rightarrow> bool list \<Rightarrow> model" where
  "cur_dict_of vars assignment =
     fold (\<lambda>(i, v) cur_dict. dict_set cur_dict v (assignment ! i)) (enumerate 0 vars) []"

definition all_models :: "string list \<Rightarrow> model list result" where
  "all_models vars =
     (case all_models_assert vars of
        Inl e \<Rightarrow> Inl e
      | Inr u \<Rightarrow> Inr (map (cur_dict_of vars) (itertools_product [False, True] (length vars))))"

text \<open>\<^verbatim>\<open>truth_values\<close>: the loop appends to \<^verbatim>\<open>res\<close>.\<close>

fun truth_values_loop :: "formula \<Rightarrow> model list \<Rightarrow> bool option list \<Rightarrow> bool option list result" where
  "truth_values_loop f [] res = Inr res"
| "truth_values_loop f (model # models) res =
     (case evaluate f model of
        Inl e \<Rightarrow> Inl e
      | Inr v \<Rightarrow> truth_values_loop f models (res @ [v]))"

definition truth_values :: "formula \<Rightarrow> model list \<Rightarrow> bool option list result" where
  "truth_values f models = truth_values_loop f models []"

section \<open>Synthesis (semantics.py)\<close>

fun synthesize_for_model_helper :: "string list \<Rightarrow> model \<Rightarrow> formula result" where
  "synthesize_for_model_helper [] model = Inl IndexError"
| "synthesize_for_model_helper (v # vs) model =
     (case Formula_init v None None of
        Inl e \<Rightarrow> Inl e
      | Inr var_formula \<Rightarrow>
          (case (if \<not> truthy (dict_get model v) then Formula_init ''~'' (Some var_formula) None
                 else Inr var_formula) of
             Inl e \<Rightarrow> Inl e
           | Inr cur_formula \<Rightarrow>
               if length (v # vs) = 1 then Inr cur_formula
               else
                 (case synthesize_for_model_helper vs model of
                    Inl e \<Rightarrow> Inl e
                  | Inr rest \<Rightarrow> Formula_init ''&'' (Some cur_formula) (Some rest))))"

definition synthesize_for_model :: "model \<Rightarrow> formula result" where
  "synthesize_for_model model =
     (case is_model model of
        Inl e \<Rightarrow> Inl e
      | Inr ok \<Rightarrow>
          if \<not> ok then Inl AssertionError
          else if \<not> 0 < length (map fst model) then Inl AssertionError
          else synthesize_for_model_helper (map fst model) model)"

text \<open>
  The loop of \<^verbatim>\<open>synthesize\<close> over \<^verbatim>\<open>enumerate(all_models(variables))\<close>, with its two
  variables \<^verbatim>\<open>is_first\<close> and \<^verbatim>\<open>cur_formula\<close>; \<^verbatim>\<open>values[i]\<close> raises past the end of
  the table.
\<close>

fun synthesize_loop ::
  "(nat \<times> model) list \<Rightarrow> bool list \<Rightarrow> bool \<Rightarrow> formula option \<Rightarrow> formula option result" where
  "synthesize_loop [] vals is_first cur_formula = Inr cur_formula"
| "synthesize_loop ((i, model) # rest) vals is_first cur_formula =
     (if \<not> i < length vals then Inl IndexError
      else if vals ! i then
        (case synthesize_for_model model of
           Inl e \<Rightarrow> Inl e
         | Inr clause \<Rightarrow>
             if is_first then synthesize_loop rest vals False (Some clause)
             else
               (case Formula_init ''|'' cur_formula (Some clause) of
                  Inl e \<Rightarrow> Inl e
                | Inr g \<Rightarrow> synthesize_loop rest vals is_first (Some g)))
      else synthesize_loop rest vals is_first cur_formula)"

definition synthesize :: "string list \<Rightarrow> bool list \<Rightarrow> formula result" where
  "synthesize vars vals =
     (if \<not> 0 < length vars then Inl AssertionError
      else
        (case all_models vars of
           Inl e \<Rightarrow> Inl e
         | Inr models \<Rightarrow>
             (case synthesize_loop (enumerate 0 models) vals True None of
                Inl e \<Rightarrow> Inl e
              | Inr cur_formula \<Rightarrow>
                  (case cur_formula of
                     Some f \<Rightarrow> Inr f
                   | None \<Rightarrow>
                       (case Formula_init (vars ! 0) None None of
                          Inl e \<Rightarrow> Inl e
                        | Inr x \<Rightarrow>
                            (case Formula_init (vars ! 0) None None of
                               Inl e \<Rightarrow> Inl e
                             | Inr y \<Rightarrow>
                                 (case Formula_init ''~'' (Some y) None of
                                    Inl e \<Rightarrow> Inl e
                                  | Inr n \<Rightarrow> Formula_init ''&'' (Some x) (Some n))))))))"

section \<open>Inference rules (semantics.py)\<close>

text \<open>
  Modelled from the spec: the class \<^verbatim>\<open>InferenceRule\<close> of \<^verbatim>\<open>propositions/proofs.py\<close>,
  an ordered list of assumption formulas and one conclusion formula.
\<close>

record inference_rule =
  assumptions :: "formula list"
  conclusion :: formula

text \<open>
  The body of \<^verbatim>\<open>evaluate_inference\<close> is the assertion on the model; control then
  reaches the end of the function, which returns \<^verbatim>\<open>None\<close>.
\<close>

definition evaluate_inference :: "inference_rule \<Rightarrow> model \<Rightarrow> bool option result" where
  "evaluate_inference rule model =
     (case is_model model of
        Inl e \<Rightarrow> Inl e
      | Inr ok \<Rightarrow> if \<not> ok then Inl AssertionError else Inr None)"

section \<open>The truth-functional semantics (specification)\<close>

text \<open>
  The standard semantics in the words of the specification, to compare \<^verbatim>\<open>evaluate\<close> with:
  a variable has the value the valuation gives it, \<^verbatim>\<open>T\<close> and \<^verbatim>\<open>F\<close> are true and false,
  \<^verbatim>\<open>~\<close> negates, \<^verbatim>\<open>&\<close> is conjunction, \<^verbatim>\<open>|\<close> is disjunction and \<^verbatim>\<open>->\<close> is material
  implication.
\<close>

fun standard_semantics :: "formula \<Rightarrow> (string \<Rightarrow> bool) \<Rightarrow> bool" where
  "standard_semantics (Formula r None None) val =
     (if r = ''T'' then True else if r = ''F'' then False else val r)"
| "standard_semantics (Formula r (Some x) None) val = (\<not> standard_semantics x val)"
| "standard_semantics (Formula r (Some x) (Some y)) val =
     (if r = ''&'' then standard_semantics x val \<and> standard_semantics y val
      else if r = ''|'' then standard_semantics x val \<or> standard_semantics y val
      else if r = ''->'' then (standard_semantics x val \<longrightarrow> standard_semantics y val)
      else False)"
| "standard_semantics (Formula r None (Some y)) val = False"

text \<open>
  A formula covers a set of value rows over the variables \<open>vs\<close> when it is a constructed
  formula over exactly these variables that is true under the valuations agreeing with
  one of the rows, and under no others.
\<close>

definition covers :: "string list \<Rightarrow> formula \<Rightarrow> bool list set \<Rightarrow> bool" where
  "covers vs g S =
     (constructed g \<and> variables g = Inr (set vs)
      \<and> (\<forall>val. standard_semantics g val
                 = (\<exists>bs\<in>S. \<forall>v\<in>set vs. val v = truthy (dict_get (zip vs bs) v))))"

section \<open>The parser, branch by branch\<close>

lemma is_variable_Cons:
  "is_variable (c # cs) = Inr (CHR ''p'' \<le> c \<and> c \<le> CHR ''z'' \<and> (cs = [] \<or> list_all digit_char cs))"
  by (auto simp: is_variable_def isdigit_def)

lemma isdigit_single: "isdigit [c] = digit_char c"
  by (simp add: isdigit_def)

lemma is_variable_append_digit:
  "is_variable tok = Inr True \<Longrightarrow> digit_char c \<Longrightarrow> is_variable (tok @ [c]) = Inr True"
  by (cases tok) (auto simp: is_variable_def isdigit_def)

lemma Formula_init_variable:
  "is_variable r = Inr True \<Longrightarrow> Formula_init r None None = Inr (Formula r None None)"
  by (simp add: Formula_init_def)

lemma Formula_init_constant:
  "is_constant r \<Longrightarrow> Formula_init r None None = Inr (Formula r None None)"
  by (auto simp: Formula_init_def is_constant_def is_variable_Cons)

lemma Formula_init_unary:
  "Formula_init ''~'' (Some x) None = Inr (Formula ''~'' (Some x) None)"
  by (simp add: Formula_init_def is_variable_Cons is_constant_def is_unary_def)

lemma Formula_init_binary:
  "is_binary r \<Longrightarrow> Formula_init r (Some x) (Some y) = Inr (Formula r (Some x) (Some y))"
  by (auto simp: Formula_init_def is_variable_Cons is_constant_def is_unary_def is_binary_def)

lemma parse_variable_loop_eq:
  "i < length s \<Longrightarrow> c = s ! i \<Longrightarrow> is_variable tok = Inr True \<Longrightarrow>
   parse_variable_loop s i tok c =
     Inr (Some (Formula (tok @ takeWhile digit_char (drop i s)) None None),
          dropWhile digit_char (drop i s))"
proof (induction s i tok c rule: parse_variable_loop.induct)
  case (1 s i tok c)
  from "1.prems" have d: "drop i s = c # drop (Suc i) s"
    by (simp add: Cons_nth_drop_Suc)
  show ?case
  proof (cases "digit_char c")
    case False
    with "1.prems" d show ?thesis
      by (simp add: parse_variable_loop.simps[of s i] isdigit_single Formula_init_variable)
  next
    case dc: True
    show ?thesis
    proof (cases "i + 1 < length s")
      case True
      from "1.IH" True dc "1.prems" is_variable_append_digit[of tok c]
      have "parse_variable_loop s (i + 1) (tok @ [c]) (s ! (i + 1)) =
            Inr (Some (Formula ((tok @ [c]) @ takeWhile digit_char (drop (i + 1) s)) None None),
                 dropWhile digit_char (drop (i + 1) s))"
        by (simp add: isdigit_single)
      with dc True d show ?thesis
        by (simp add: parse_variable_loop.simps[of s i] isdigit_single)
    next
      case False
      with "1.prems" have "drop (Suc i) s = []" by simp
      with dc False d "1.prems" is_variable_append_digit[of tok c] show ?thesis
        by (simp add: parse_variable_loop.simps[of s i] isdigit_single Formula_init_variable)
    qed
  qed
qed

lemma parse_variable_eq:
  assumes "is_variable [c] = Inr True"
  shows "parse_variable (c # cs) =
     Inr (Some (Formula (c # takeWhile digit_char cs) None None), dropWhile digit_char cs)"
proof (cases cs)
  case Nil
  with assms show ?thesis
    by (simp add: parse_variable_def Formula_init_variable)
next
  case (Cons d ds)
  with assms parse_variable_loop_eq[of 1 "c # cs" "cs ! 0" "[c]"] show ?thesis
    by (simp add: parse_variable_def)
qed

lemma parse_operator_binary:
  "parse_operator s = (Some op, r) \<Longrightarrow> is_binary op"
  by (auto simp: parse_operator_def split: if_splits option.splits)

lemma parse_operator_message:
  "parse_operator s = (None, r) \<Longrightarrow> r \<noteq> []"
  by (auto simp: parse_operator_def split: if_splits option.splits)

lemma parse_prefix_Nil: "parse_prefix [] = Inr (None, ''Error, empty string'')"
  by (simp add: parse_prefix.simps[of "[]"])

lemma parse_prefix_variable:
  "is_variable [c] = Inr True \<Longrightarrow>
   parse_prefix (c # cs) =
     Inr (Some (Formula (c # takeWhile digit_char cs) None None), dropWhile digit_char cs)"
  by (subst parse_prefix.simps) (auto simp: parse_variable_eq is_variable_Cons)

lemma parse_prefix_constant:
  "is_constant [c] \<Longrightarrow> parse_prefix (c # cs) = Inr (Some (Formula [c] None None), cs)"
  by (subst parse_prefix.simps)
     (auto simp: is_constant_def is_variable_Cons Formula_init_constant)

lemma parse_prefix_unary:
  "parse_prefix (CHR ''~'' # cs) =
     (case parse_prefix cs of
        Inl e \<Rightarrow> Inl e
      | Inr (None, r) \<Rightarrow> Inr (None, ''invalid string'')
      | Inr (Some g, r) \<Rightarrow> Inr (Some (Formula ''~'' (Some g) None), r))"
  by (subst parse_prefix.simps)
     (auto simp: is_constant_def is_variable_Cons is_unary_def Formula_init_unary
           split: sum.splits option.splits)

lemma parse_prefix_paren:
  "parse_prefix (CHR ''('' # cs) =
     (case parse_prefix cs of
        Inl e \<Rightarrow> Inl e
      | Inr (None, r1) \<Rightarrow> Inr (None, ''error parsing string all formula'')
      | Inr (Some f1, r1) \<Rightarrow>
          (case parse_operator r1 of
             (None, r2) \<Rightarrow> Inr (None, ''error parsing string all formula'')
           | (Some op, r2) \<Rightarrow>
               (case parse_prefix r2 of
                  Inl e \<Rightarrow> Inl e
                | Inr (None, r3) \<Rightarrow> Inr (None, ''error parsing string all formula'')
                | Inr (Some f2, r3) \<Rightarrow>
                    (case r3 of
                       [] \<Rightarrow> Inr (None, ''error parsing string all formula'')
                     | d # r4 \<Rightarrow>
                         if d = CHR '')'' then Inr (Some (Formula op (Some f1) (Some f2)), r4)
                         else Inr (None, ''error parsing string all formula'')))))"
  by (subst parse_prefix.simps)
     (auto simp: Formula_init_binary dest: parse_operator_binary
           split: sum.splits option.splits prod.splits list.splits)

lemma parse_prefix_other:
  "c \<noteq> CHR ''('' \<Longrightarrow> is_variable [c] = Inr False \<Longrightarrow> \<not> is_constant [c] \<Longrightarrow> c \<noteq> CHR ''~'' \<Longrightarrow>
   parse_prefix (c # cs) = Inr (None, ''invalid string'')"
  by (subst parse_prefix.simps) (auto simp: is_unary_def)

lemma parse_prefix_returns:
  "\<exists>fo r. parse_prefix s = Inr (fo, r) \<and> (fo = None \<longrightarrow> r \<noteq> [])
      \<and> (fo \<noteq> None \<longrightarrow> length r < length s)"
proof (induction s rule: length_induct)
  case (1 s)
  show ?case
  proof (cases s)
    case Nil
    then show ?thesis by (simp add: parse_prefix_Nil)
  next
    case (Cons c cs)
    have "length cs < length s" using Cons by simp
    with "1.IH" have "\<exists>fo r. parse_prefix cs = Inr (fo, r) \<and> (fo = None \<longrightarrow> r \<noteq> [])
      \<and> (fo \<noteq> None \<longrightarrow> length r < length cs)" by blast
    then obtain fo1 r1 where
      p1: "parse_prefix cs = Inr (fo1, r1)" and n1: "fo1 = None \<longrightarrow> r1 \<noteq> []"
      and l1: "fo1 \<noteq> None \<longrightarrow> length r1 < length cs"
      by blast
    consider (paren) "c = CHR ''(''" | (var) "is_variable [c] = Inr True"
      | (const) "is_constant [c]" | (unary) "c = CHR ''~''"
      | (other) "c \<noteq> CHR ''(''" "is_variable [c] = Inr False" "\<not> is_constant [c]" "c \<noteq> CHR ''~''"
      by (auto simp: is_variable_Cons)
    then show ?thesis
    proof cases
      case var
      have "length (dropWhile digit_char cs) \<le> length cs" by (rule length_dropWhile_le)
      with var Cons show ?thesis by (simp add: parse_prefix_variable)
    next
      case const
      with Cons show ?thesis by (simp add: parse_prefix_constant)
    next
      case unary
      show ?thesis
      proof (cases fo1)
        case None
        with unary Cons p1 show ?thesis by (simp add: parse_prefix_unary)
      next
        case (Some g)
        with unary Cons p1 l1 show ?thesis by (simp add: parse_prefix_unary)
      qed
    next
      case other
      with Cons show ?thesis by (simp add: parse_prefix_other)
    next
      case paren
      show ?thesis
      proof (cases fo1)
        case None
        with paren Cons p1 show ?thesis by (simp add: parse_prefix_paren)
      next
        case f1: (Some f1)
        with l1 have l1': "length r1 < length cs" by simp
        obtain oo r2 where po: "parse_operator r1 = (oo, r2)" by (cases "parse_operator r1")
        show ?thesis
        proof (cases oo)
          case None
          with paren Cons p1 f1 po show ?thesis by (simp add: parse_prefix_paren)
        next
          case op: (Some op)
          with po parse_operator_shorter have l2: "length r2 < length r1" by blast
          with l1' Cons have "length r2 < length s" by simp
          with "1.IH" have "\<exists>fo r. parse_prefix r2 = Inr (fo, r) \<and> (fo = None \<longrightarrow> r \<noteq> [])
             \<and> (fo \<noteq> None \<longrightarrow> length r < length r2)" by blast
          then obtain fo2 r3 where
            p2: "parse_prefix r2 = Inr (fo2, r3)" and l3: "fo2 \<noteq> None \<longrightarrow> length r3 < length r2"
            by blast
          show ?thesis
          proof (cases fo2)
            case None
            with paren Cons p1 f1 po op p2 show ?thesis by (simp add: parse_prefix_paren)
          next
            case f2: (Some f2)
            show ?thesis
            proof (cases r3)
              case Nil
              with paren Cons p1 f1 po op p2 f2 show ?thesis by (simp add: parse_prefix_paren)
            next
              case r3: (Cons d r4)
              with l3 f2 l2 l1' have "length r4 < length cs" by simp
              with paren Cons p1 f1 po op p2 f2 r3 show ?thesis
                by (simp add: parse_prefix_paren)
            qed
          qed
        qed
      qed
    qed
  qed
qed

section \<open>Facts about the model enumeration\<close>

lemma all_models_assert_ok:
  "\<forall>v\<in>set vs. is_variable v = Inr True \<Longrightarrow> all_models_assert vs = Inr ()"
  by (induction vs) auto

lemma dict_set_fresh: "k \<notin> fst ` set d \<Longrightarrow> dict_set d k v = d @ [(k, v)]"
  by (induction d) auto

lemma cur_dict_fold:
  "distinct vs \<Longrightarrow> set vs \<inter> fst ` set d = {} \<Longrightarrow> n + length vs \<le> length bs \<Longrightarrow>
   fold (\<lambda>(i, v) cur_dict. dict_set cur_dict v (bs ! i)) (enumerate n vs) d
     = d @ zip vs (drop n bs)"
proof (induction vs arbitrary: n d)
  case Nil
  then show ?case by simp
next
  case (Cons v vs)
  from Cons.prems have fresh: "v \<notin> fst ` set d" by auto
  from Cons.prems have n: "n < length bs" by simp
  from Cons.prems have "distinct vs" "set vs \<inter> fst ` set (d @ [(v, bs ! n)]) = {}"
    "Suc n + length vs \<le> length bs" by auto
  from Cons.IH[OF this] fresh Cons_nth_drop_Suc[OF n, symmetric] show ?case
    by (simp add: dict_set_fresh)
qed

lemma cur_dict_of_zip:
  "distinct vs \<Longrightarrow> length bs = length vs \<Longrightarrow> cur_dict_of vs bs = zip vs bs"
  using cur_dict_fold[of vs "[]" 0 bs] by (simp add: cur_dict_of_def)

lemma product_step_Nil: "product_step pool [] = []"
  by (simp add: product_step_def)

lemma product_step_Cons:
  "product_step [False, True] (x # xs) = (x @ [False]) # (x @ [True]) # product_step [False, True] xs"
  by (simp add: product_step_def)

lemma length_product_step: "length (product_step [False, True] r) = 2 * length r"
  by (induction r) (simp_all add: product_step_Nil product_step_Cons)

lemma nth_product_step:
  "i < 2 * length r \<Longrightarrow> product_step [False, True] r ! i = r ! (i div 2) @ [odd i]"
proof (induction r arbitrary: i)
  case Nil
  then show ?case by simp
next
  case (Cons x xs)
  show ?case
  proof (cases "i < 2")
    case True
    then have "i = 0 \<or> i = 1" by auto
    then show ?thesis by (auto simp: product_step_Cons)
  next
    case False
    then have "i = Suc (Suc (i - 2))" by simp
    then obtain j where j: "i = Suc (Suc j)" ..
    with Cons.prems have "j < 2 * length xs" by simp
    from Cons.IH[OF this] j show ?thesis by (simp add: product_step_Cons)
  qed
qed

lemma itertools_product_Suc:
  "itertools_product pool (Suc n) = product_step pool (itertools_product pool n)"
  by (simp add: itertools_product_def)

lemma length_itertools_product: "length (itertools_product [False, True] n) = 2 ^ n"
proof (induction n)
  case 0
  show ?case by (simp add: itertools_product_def)
next
  case (Suc n)
  then show ?case by (simp add: itertools_product_Suc length_product_step)
qed

lemma nth_itertools_product:
  "i < 2 ^ n \<Longrightarrow>
   itertools_product [False, True] n ! i = map (\<lambda>j. bit i (n - Suc j)) [0..<n]"
proof (induction n arbitrary: i)
  case 0
  then show ?case by (simp add: itertools_product_def)
next
  case (Suc n)
  from Suc.prems have h: "i div 2 < 2 ^ n" by simp
  from Suc.prems have "i < 2 * length (itertools_product [False, True] n)"
    by (simp add: length_itertools_product)
  then have "itertools_product [False, True] (Suc n) ! i
      = itertools_product [False, True] n ! (i div 2) @ [odd i]"
    by (simp add: itertools_product_Suc nth_product_step)
  also have "\<dots> = map (\<lambda>j. bit (i div 2) (n - Suc j)) [0..<n] @ [odd i]"
    by (simp add: Suc.IH[OF h])
  also have "map (\<lambda>j. bit (i div 2) (n - Suc j)) [0..<n] = map (\<lambda>j. bit i (Suc n - Suc j)) [0..<n]"
  proof (rule map_cong[OF refl])
    fix j assume "j \<in> set [0..<n]"
    then have "n - j = Suc (n - Suc j)" by auto
    then show "bit (i div 2) (n - Suc j) = bit i (Suc n - Suc j)"
      by (simp add: bit_Suc)
  qed
  finally show ?case by (simp add: bit_0)
qed

lemma length_nth_itertools_product:
  "i < 2 ^ n \<Longrightarrow> length (itertools_product [False, True] n ! i) = n"
  by (simp add: nth_itertools_product)

lemma itertools_product_inj:
  "i < 2 ^ n \<Longrightarrow> j < 2 ^ n \<Longrightarrow>
   itertools_product [False, True] n ! i = itertools_product [False, True] n ! j \<Longrightarrow> i = j"
proof (induction n arbitrary: i j)
  case 0
  then show ?case by simp
next
  case (Suc n)
  from Suc.prems have hi: "i div 2 < 2 ^ n" and hj: "j div 2 < 2 ^ n" by simp_all
  from Suc.prems have "i < 2 * length (itertools_product [False, True] n)"
    "j < 2 * length (itertools_product [False, True] n)"
    by (simp_all add: length_itertools_product)
  with Suc.prems(3) have
    "itertools_product [False, True] n ! (i div 2) @ [odd i]
       = itertools_product [False, True] n ! (j div 2) @ [odd j]"
    by (simp add: itertools_product_Suc nth_product_step)
  then have e: "itertools_product [False, True] n ! (i div 2)
       = itertools_product [False, True] n ! (j div 2)" and o: "odd i = odd j" by simp_all
  from Suc.IH[OF hi hj e] have "i div 2 = j div 2" .
  with o show ?case by (metis odd_two_times_div_two_succ even_two_times_div_two)
qed

lemma itertools_product_lex:
  "i < j \<Longrightarrow> j < 2 ^ n \<Longrightarrow>
   (itertools_product [False, True] n ! i, itertools_product [False, True] n ! j)
     \<in> lexord {(False, True)}"
proof (induction n arbitrary: i j)
  case 0
  then show ?case by simp
next
  case (Suc n)
  let ?P = "itertools_product [False, True] n"
  from Suc.prems have hi: "i div 2 < 2 ^ n" and hj: "j div 2 < 2 ^ n" by simp_all
  from Suc.prems have "i < 2 * length ?P" "j < 2 * length ?P"
    by (simp_all add: length_itertools_product)
  then have ei: "itertools_product [False, True] (Suc n) ! i = ?P ! (i div 2) @ [odd i]"
    and ej: "itertools_product [False, True] (Suc n) ! j = ?P ! (j div 2) @ [odd j]"
    by (simp_all add: itertools_product_Suc nth_product_step)
  show ?case
  proof (cases "i div 2 = j div 2")
    case True
    with Suc.prems(1) have "even i \<and> odd j"
      by (metis odd_two_times_div_two_succ even_two_times_div_two less_irrefl
          less_add_one not_less_iff_gr_or_eq add.commute less_trans)
    with True ei ej show ?thesis by (simp add: lexord_append_leftI)
  next
    case False
    with Suc.prems(1) have "i div 2 < j div 2"
      by (meson div_le_mono le_neq_implies_less less_imp_le)
    from Suc.IH[OF this hj] have "(?P ! (i div 2), ?P ! (j div 2)) \<in> lexord {(False, True)}" .
    moreover have "length (?P ! (j div 2)) \<le> length (?P ! (i div 2))"
      using hi hj by (simp add: length_nth_itertools_product)
    ultimately show ?thesis unfolding ei ej by (rule lexord_sufI)
  qed
qed

lemma all_models_eq:
  assumes "distinct vs" and "\<forall>v\<in>set vs. is_variable v = Inr True"
  shows "all_models vs = Inr (map (zip vs) (itertools_product [False, True] (length vs)))"
proof -
  have "map (cur_dict_of vs) (itertools_product [False, True] (length vs))
      = map (zip vs) (itertools_product [False, True] (length vs))"
  proof (rule nth_equalityI)
    show "length (map (cur_dict_of vs) (itertools_product [False, True] (length vs)))
        = length (map (zip vs) (itertools_product [False, True] (length vs)))" by simp
  next
    fix i assume "i < length (map (cur_dict_of vs) (itertools_product [False, True] (length vs)))"
    then have i: "i < 2 ^ length vs" by (simp add: length_itertools_product)
    then show "map (cur_dict_of vs) (itertools_product [False, True] (length vs)) ! i
        = map (zip vs) (itertools_product [False, True] (length vs)) ! i"
      using assms(1)
      by (simp add: length_itertools_product cur_dict_of_zip length_nth_itertools_product)
  qed
  with assms(2) show ?thesis by (simp add: all_models_def all_models_assert_ok)
qed

section \<open>Facts about constructed formulas and evaluation\<close>

lemma constructed_cases:
  assumes "constructed (Formula r a b)"
  obtains (var) "is_variable r = Inr True" "a = None" "b = None"
  | (const) "is_variable r = Inr False" "is_constant r" "a = None" "b = None"
  | (unary) x where "r = ''~''" "a = Some x" "b = None" "constructed x"
  | (binary) x y where "is_binary r" "is_variable r = Inr False" "\<not> is_constant r" "\<not> is_unary r"
      "a = Some x" "b = Some y" "constructed x" "constructed y"
proof -
  from assms have i: "Formula_init r a b = Inr (Formula r a b)"
    and ca: "\<And>x. a = Some x \<Longrightarrow> constructed x" and cb: "\<And>y. b = Some y \<Longrightarrow> constructed y"
    by simp_all
  from i obtain v where v: "is_variable r = Inr v"
    by (auto simp: Formula_init_def split: sum.splits)
  show thesis
  proof (cases "v \<or> is_constant r")
    case True
    with i v have "a = None" "b = None"
      by (auto simp: Formula_init_def split: if_splits)
    with True v var const show ?thesis by (cases v) auto
  next
    case nvc: False
    show ?thesis
    proof (cases "is_unary r")
      case True
      with i v nvc obtain x where "a = Some x" "b = None"
        by (auto simp: Formula_init_def split: if_splits)
      with True ca unary show ?thesis by (simp add: is_unary_def)
    next
      case False
      with i v nvc obtain x y where "is_binary r" "a = Some x" "b = Some y"
        by (auto simp: Formula_init_def split: if_splits)
      with False v nvc ca cb binary show ?thesis by auto
    qed
  qed
qed

lemma variables_constructed:
  "constructed f \<Longrightarrow> \<exists>vs. variables f = Inr vs"
proof (induction f)
  case (Formula r a b)
  from Formula.prems show ?case
  proof (cases rule: constructed_cases)
    case var
    then show ?thesis by simp
  next
    case const
    then show ?thesis by simp
  next
    case (unary x)
    with Formula.IH(1)[of x] show ?thesis
      by (auto simp: is_variable_Cons is_constant_def is_unary_def)
  next
    case (binary x y)
    with Formula.IH(1)[of x] Formula.IH(2)[of y] show ?thesis by auto
  qed
qed

lemma model_variables_ok: "is_model m = Inr True \<Longrightarrow> model_variables m = Inr (map fst m)"
  by (simp add: model_variables_def)

lemma dict_get_key: "k \<in> fst ` set m \<Longrightarrow> \<exists>v. dict_get m k = Some v"
  by (metis dict_get_def map_of_eq_None_iff not_Some_eq)

lemma truthy_Some: "truthy (Some v) = v"
  by (simp add: truthy_def)

lemma evaluate_eq:
  "constructed f \<Longrightarrow> is_model m = Inr True \<Longrightarrow> variables f = Inr vs \<Longrightarrow>
   vs \<subseteq> set (map fst m) \<Longrightarrow>
   evaluate f m = Inr (Some (standard_semantics f (\<lambda>v. dict_get m v = Some True)))"
proof (induction f arbitrary: vs)
  case (Formula r a b)
  note mv = model_variables_ok[OF Formula.prems(2)]
  from Formula.prems(1) show ?case
  proof (cases rule: constructed_cases)
    case var
    with Formula.prems(3) have "vs = {r}" by simp
    with Formula.prems(4) obtain bv where bv: "dict_get m r = Some bv"
      using dict_get_key[of r m] by auto
    from var(1) have "r \<noteq> ''T''" "r \<noteq> ''F''" by (auto simp: is_variable_Cons)
    with var bv Formula.prems mv show ?thesis by simp
  next
    case const
    with Formula.prems mv show ?thesis by (auto simp: is_constant_def)
  next
    case (unary x)
    with Formula.prems(3) have vx: "variables x = Inr vs"
      by (simp add: is_variable_Cons is_constant_def is_unary_def)
    from unary have "x \<in> set_option a" by simp
    from Formula.IH(1)[OF this unary(4) Formula.prems(2) vx Formula.prems(4)]
    have "evaluate x m = Inr (Some (standard_semantics x (\<lambda>v. dict_get m v = Some True)))" .
    with unary Formula.prems mv vx show ?thesis
      by (simp add: is_variable_Cons is_constant_def is_unary_def truthy_Some)
  next
    case (binary x y)
    from variables_constructed[OF binary(7)] obtain va where va: "variables x = Inr va" by blast
    from variables_constructed[OF binary(8)] obtain vb where vb: "variables y = Inr vb" by blast
    from binary va vb Formula.prems(3) have vs: "vs = va \<union> vb" by simp
    with Formula.prems(4) have sa: "va \<subseteq> set (map fst m)" and sb: "vb \<subseteq> set (map fst m)"
      by auto
    from binary have "x \<in> set_option a" "y \<in> set_option b" by simp_all
    from Formula.IH(1)[OF this(1) binary(7) Formula.prems(2) va sa]
      Formula.IH(2)[OF this(2) binary(8) Formula.prems(2) vb sb]
    have ex: "evaluate x m = Inr (Some (standard_semantics x (\<lambda>v. dict_get m v = Some True)))"
     and ey: "evaluate y m = Inr (Some (standard_semantics y (\<lambda>v. dict_get m v = Some True)))" .
    from binary(1) consider "r = ''&''" | "r = ''|''" | "r = ''->''"
      by (auto simp: is_binary_def)
    then show ?thesis
    proof cases
      case 1
      with binary ex ey Formula.prems mv va vb vs show ?thesis
        by (simp add: is_variable_Cons is_unary_def truthy_Some)
    next
      case 2
      with binary ex ey Formula.prems mv va vb vs show ?thesis
        by (simp add: is_variable_Cons is_unary_def truthy_Some)
    next
      case 3
      with binary ex ey Formula.prems mv va vb vs show ?thesis
        by (simp add: is_variable_Cons is_unary_def truthy_Some)
    qed
  qed
qed

lemma takeWhile_digits_append:
  "list_all digit_char ds \<Longrightarrow> rest = [] \<or> \<not> digit_char (hd rest) \<Longrightarrow>
   takeWhile digit_char (ds @ rest) = ds \<and> dropWhile digit_char (ds @ rest) = rest"
  by (induction ds) (cases rest; auto)+

lemma parse_operator_binary_append:
  "is_binary r \<Longrightarrow> parse_operator (r @ s) = (Some r, s)"
  by (auto simp: is_binary_def parse_operator_def)

lemma repr_parse_prefix:
  "constructed f \<Longrightarrow>
   \<exists>s. repr f = Inr s \<and>
       (\<forall>rest. rest = [] \<or> \<not> digit_char (hd rest) \<longrightarrow>
          parse_prefix (s @ rest) = Inr (Some f, rest))"
proof (induction f)
  case (Formula r a b)
  from Formula.prems show ?case
  proof (cases rule: constructed_cases)
    case var
    from var(1) obtain c ds where r: "r = c # ds" and c: "is_variable [c] = Inr True"
      and ds: "list_all digit_char ds"
      by (cases r) (auto simp: is_variable_def isdigit_def)
    have "parse_prefix (r @ rest) = Inr (Some (Formula r a b), rest)"
      if "rest = [] \<or> \<not> digit_char (hd rest)" for rest
      using takeWhile_digits_append[OF ds that] r c var by (simp add: parse_prefix_variable)
    moreover from var have "repr (Formula r a b) = Inr r" by simp
    ultimately show ?thesis by blast
  next
    case const
    then have "parse_prefix (r @ rest) = Inr (Some (Formula r a b), rest)" for rest
      by (auto simp: is_constant_def parse_prefix_constant)
    moreover from const have "repr (Formula r a b) = Inr r" by simp
    ultimately show ?thesis by blast
  next
    case (unary x)
    then have "x \<in> set_option a" by simp
    from Formula.IH(1)[OF this unary(4)] obtain sx where
      sx: "repr x = Inr sx" and
      px: "\<And>rest. rest = [] \<or> \<not> digit_char (hd rest) \<Longrightarrow>
             parse_prefix (sx @ rest) = Inr (Some x, rest)"
      by blast
    from unary sx have "repr (Formula r a b) = Inr (''~'' @ sx)"
      by (simp add: is_variable_Cons is_constant_def is_unary_def)
    moreover have "parse_prefix ((''~'' @ sx) @ rest) = Inr (Some (Formula r a b), rest)"
      if "rest = [] \<or> \<not> digit_char (hd rest)" for rest
      using px[OF that] unary by (simp add: parse_prefix_unary)
    ultimately show ?thesis by blast
  next
    case (binary x y)
    then have "x \<in> set_option a" "y \<in> set_option b" by simp_all
    from Formula.IH(1)[OF this(1) binary(7)] Formula.IH(2)[OF this(2) binary(8)]
    obtain sx sy where
      sx: "repr x = Inr sx" and
      px: "\<And>rest. rest = [] \<or> \<not> digit_char (hd rest) \<Longrightarrow>
             parse_prefix (sx @ rest) = Inr (Some x, rest)" and
      sy: "repr y = Inr sy" and
      py: "\<And>rest. rest = [] \<or> \<not> digit_char (hd rest) \<Longrightarrow>
             parse_prefix (sy @ rest) = Inr (Some y, rest)"
      by blast
    from binary sx sy have rp: "repr (Formula r a b) = Inr (''('' @ sx @ r @ sy @ '')'')"
      by simp
    have "parse_prefix ((''('' @ sx @ r @ sy @ '')'') @ rest) = Inr (Some (Formula r a b), rest)"
      for rest
    proof -
      from binary(1) have "\<not> digit_char (hd (r @ sy @ '')'' @ rest))"
        by (auto simp: is_binary_def digit_char_def)
      then have 1: "parse_prefix (sx @ r @ sy @ '')'' @ rest) = Inr (Some x, r @ sy @ '')'' @ rest)"
        using px[of "r @ sy @ '')'' @ rest"] by simp
      have 2: "parse_operator (r @ sy @ '')'' @ rest) = (Some r, sy @ '')'' @ rest)"
        using binary(1) by (rule parse_operator_binary_append)
      have "\<not> digit_char (hd ('')'' @ rest))" by (simp add: digit_char_def)
      then have 3: "parse_prefix (sy @ '')'' @ rest) = Inr (Some y, '')'' @ rest)"
        using py[of "'')'' @ rest"] by simp
      from 1 2 3 binary show ?thesis by (simp add: parse_prefix_paren)
    qed
    with rp show ?thesis by blast
  qed
qed

section \<open>Facts about synthesis\<close>

lemma is_model_loop_ok:
  "\<forall>v\<in>set ks. is_variable v = Inr True \<Longrightarrow> is_model_loop ks = Inr True"
  by (induction ks) auto

lemma is_model_zip:
  "\<forall>v\<in>set vs. is_variable v = Inr True \<Longrightarrow> length bs = length vs \<Longrightarrow>
   is_model (zip vs bs) = Inr True"
  by (simp add: is_model_def is_model_loop_ok)

lemma variable_not_constant:
  "is_variable v = Inr True \<Longrightarrow> v \<noteq> ''T'' \<and> v \<noteq> ''F''"
  by (auto simp: is_variable_Cons)

text \<open>
  The clause built for a model: it is a constructed formula over the given variables,
  true exactly under the valuations that agree with the model on them.
\<close>

lemma synthesize_for_model_helper_clause:
  "vs \<noteq> [] \<Longrightarrow> \<forall>v\<in>set vs. is_variable v = Inr True \<Longrightarrow>
   \<exists>g. synthesize_for_model_helper vs m = Inr g \<and> constructed g
      \<and> variables g = Inr (set vs)
      \<and> (\<forall>val. standard_semantics g val = (\<forall>v\<in>set vs. val v = truthy (dict_get m v)))"
proof (induction vs)
  case Nil
  then show ?case by simp
next
  case (Cons v vs)
  from Cons.prems have v: "is_variable v = Inr True" by simp
  note nc = variable_not_constant[OF v]
  define lit where "lit = (if \<not> truthy (dict_get m v)
      then Formula ''~'' (Some (Formula v None None)) None else Formula v None None)"
  have lit_init: "(if \<not> truthy (dict_get m v)
      then Formula_init ''~'' (Some (Formula v None None)) None else Inr (Formula v None None))
      = Inr lit"
    by (simp add: lit_def Formula_init_unary)
  have lit_c: "constructed lit"
    using v by (simp add: lit_def Formula_init_unary Formula_init_variable)
  have lit_v: "variables lit = Inr {v}"
    using v by (simp add: lit_def is_variable_Cons is_constant_def is_unary_def)
  have lit_s: "standard_semantics lit val = (val v = truthy (dict_get m v))" for val
    using nc by (simp add: lit_def)
  show ?case
  proof (cases vs)
    case Nil
    with v lit_init lit_c lit_v lit_s show ?thesis
      by (simp add: Formula_init_variable)
  next
    case (Cons w ws)
    with Cons.IH Cons.prems obtain g where
      g: "synthesize_for_model_helper vs m = Inr g" "constructed g" "variables g = Inr (set vs)"
         "\<forall>val. standard_semantics g val = (\<forall>v\<in>set vs. val v = truthy (dict_get m v))"
      by auto
    let ?c = "Formula ''&'' (Some lit) (Some g)"
    have b: "is_binary ''&''" by (simp add: is_binary_def)
    from Cons v lit_init g(1) have "synthesize_for_model_helper (v # vs) m = Inr ?c"
      by (simp add: Formula_init_variable Formula_init_binary[OF b])
    moreover have "constructed ?c"
      using lit_c g(2) by (simp add: Formula_init_binary[OF b])
    moreover have "variables ?c = Inr (set (v # vs))"
      using lit_v g(3) by (simp add: is_variable_Cons is_constant_def is_unary_def)
    moreover have "standard_semantics ?c val = (\<forall>u\<in>set (v # vs). val u = truthy (dict_get m u))"
      for val using lit_s g(4) by simp
    ultimately show ?thesis by blast
  qed
qed

lemma synthesize_for_model_zip:
  assumes "vs \<noteq> []" and "\<forall>v\<in>set vs. is_variable v = Inr True" and "length bs = length vs"
  shows "synthesize_for_model (zip vs bs) = synthesize_for_model_helper vs (zip vs bs)"
  using assms by (simp add: synthesize_for_model_def is_model_zip)

lemma zip_agree_iff:
  "length vs = length bs \<Longrightarrow> length bs = length bs' \<Longrightarrow> distinct vs \<Longrightarrow>
   (\<forall>v\<in>set vs. (dict_get (zip vs bs') v = Some True) = truthy (dict_get (zip vs bs) v))
     = (bs' = bs)"
proof (induction vs bs bs' rule: list_induct3)
  case Nil
  then show ?case by simp
next
  case (Cons v vs b bs b' bs')
  from Cons.prems have nv: "v \<notin> set vs" and d: "distinct vs" by simp_all
  have "(\<forall>u\<in>set vs. (dict_get (zip (v # vs) (b' # bs')) u = Some True)
            = truthy (dict_get (zip (v # vs) (b # bs)) u))
      = (\<forall>u\<in>set vs. (dict_get (zip vs bs') u = Some True) = truthy (dict_get (zip vs bs) u))"
    using nv by (auto simp: dict_get_def)
  with Cons.IH[OF d] show ?case by (auto simp: dict_get_def truthy_def)
qed

lemma covers_clause:
  assumes "vs \<noteq> []" and "\<forall>v\<in>set vs. is_variable v = Inr True" and "length bs = length vs"
  shows "\<exists>c. synthesize_for_model (zip vs bs) = Inr c \<and> covers vs c {bs}"
proof -
  from synthesize_for_model_helper_clause[OF assms(1,2), of "zip vs bs"]
  obtain c where "synthesize_for_model_helper vs (zip vs bs) = Inr c" "constructed c"
    "variables c = Inr (set vs)"
    "\<forall>val. standard_semantics c val = (\<forall>v\<in>set vs. val v = truthy (dict_get (zip vs bs) v))"
    by blast
  with synthesize_for_model_zip[OF assms] show ?thesis by (simp add: covers_def)
qed

lemma covers_or:
  assumes "covers vs g S" and "covers vs c T"
  shows "Formula_init ''|'' (Some g) (Some c) = Inr (Formula ''|'' (Some g) (Some c))
       \<and> covers vs (Formula ''|'' (Some g) (Some c)) (S \<union> T)"
proof -
  have b: "is_binary ''|''" by (simp add: is_binary_def)
  from assms show ?thesis
    by (auto simp: covers_def Formula_init_binary[OF b] is_variable_Cons is_constant_def
        is_unary_def)
qed

lemma synthesize_loop_covers:
  assumes vs: "vs \<noteq> []" "\<forall>v\<in>set vs. is_variable v = Inr True"
  shows "\<forall>bs\<in>set bss. length bs = length vs \<Longrightarrow> k + length bss \<le> length vals \<Longrightarrow>
    is_first = (cur = None) \<Longrightarrow> (cur = None \<longrightarrow> S = {}) \<Longrightarrow>
    (\<forall>g. cur = Some g \<longrightarrow> covers vs g S) \<Longrightarrow>
    \<exists>cur'. synthesize_loop (enumerate k (map (zip vs) bss)) vals is_first cur = Inr cur' \<and>
       (case cur' of
          None \<Rightarrow> cur = None \<and> True \<notin> set (take (length bss) (drop k vals))
        | Some g' \<Rightarrow> covers vs g' (S \<union> {bs. (bs, True) \<in> set (zip bss (drop k vals))}))"
proof (induction bss arbitrary: k is_first cur S)
  case Nil
  then show ?case by (cases cur) simp_all
next
  case (Cons bs rest)
  from Cons.prems(2) have k: "k < length vals" by simp
  then have dk: "drop k vals = vals ! k # drop (Suc k) vals"
    by (simp add: Cons_nth_drop_Suc)
  from Cons.prems(1) have lr: "\<forall>bs\<in>set rest. length bs = length vs"
    and lb: "length bs = length vs" by simp_all
  from Cons.prems(2) have kr: "Suc k + length rest \<le> length vals" by simp
  show ?case
  proof (cases "vals ! k")
    case False
    from Cons.IH[OF lr kr Cons.prems(3,4,5)] obtain cur' where
      c: "synthesize_loop (enumerate (Suc k) (map (zip vs) rest)) vals is_first cur = Inr cur'"
         "case cur' of
            None \<Rightarrow> cur = None \<and> True \<notin> set (take (length rest) (drop (Suc k) vals))
          | Some g' \<Rightarrow> covers vs g' (S \<union> {bs. (bs, True) \<in> set (zip rest (drop (Suc k) vals))})"
      by blast
    have "{b. (b, True) \<in> set (zip (bs # rest) (drop k vals))}
        = {b. (b, True) \<in> set (zip rest (drop (Suc k) vals))}"
      using False dk by auto
    with c False k dk show ?thesis by (cases cur') auto
  next
    case True
    from covers_clause[OF vs lb] obtain c where
      c: "synthesize_for_model (zip vs bs) = Inr c" "covers vs c {bs}" by blast
    have seteq: "{b. (b, True) \<in> set (zip (bs # rest) (drop k vals))}
        = insert bs {b. (b, True) \<in> set (zip rest (drop (Suc k) vals))}"
      using True dk by auto
    show ?thesis
    proof (cases cur)
      case None
      with Cons.prems have f: "is_first" and S: "S = {}" by simp_all
      have "\<exists>cur'. synthesize_loop (enumerate (Suc k) (map (zip vs) rest)) vals False (Some c)
               = Inr cur' \<and>
         (case cur' of
            None \<Rightarrow> Some c = None \<and> True \<notin> set (take (length rest) (drop (Suc k) vals))
          | Some g' \<Rightarrow> covers vs g' ({bs} \<union> {b. (b, True) \<in> set (zip rest (drop (Suc k) vals))}))"
        using c(2) by (intro Cons.IH[OF lr kr]) simp_all
      then obtain g' where
        "synthesize_loop (enumerate (Suc k) (map (zip vs) rest)) vals False (Some c) = Inr (Some g')"
        "covers vs g' ({bs} \<union> {b. (b, True) \<in> set (zip rest (drop (Suc k) vals))})"
        by (auto split: option.splits)
      with True k c(1) f S seteq show ?thesis by simp
    next
      case (Some g)
      with Cons.prems have f: "\<not> is_first" and g: "covers vs g S" by simp_all
      let ?g2 = "Formula ''|'' (Some g) (Some c)"
      from covers_or[OF g c(2)] have
        i: "Formula_init ''|'' (Some g) (Some c) = Inr ?g2" and
        cg: "covers vs ?g2 (S \<union> {bs})" by simp_all
      have "\<exists>cur'. synthesize_loop (enumerate (Suc k) (map (zip vs) rest)) vals is_first (Some ?g2)
               = Inr cur' \<and>
         (case cur' of
            None \<Rightarrow> Some ?g2 = None \<and> True \<notin> set (take (length rest) (drop (Suc k) vals))
          | Some g' \<Rightarrow> covers vs g'
              ((S \<union> {bs}) \<union> {b. (b, True) \<in> set (zip rest (drop (Suc k) vals))}))"
        using cg f by (intro Cons.IH[OF lr kr]) simp_all
      then obtain g' where
        "synthesize_loop (enumerate (Suc k) (map (zip vs) rest)) vals is_first (Some ?g2)
           = Inr (Some g')"
        "covers vs g' ((S \<union> {bs}) \<union> {b. (b, True) \<in> set (zip rest (drop (Suc k) vals))})"
        by (auto split: option.splits)
      with True k c(1) f Some i seteq show ?thesis by (simp add: Un_commute insert_commute)
    qed
  qed
qed

lemma truth_values_loop_map:
  "\<forall>m\<in>set ms. evaluate f m = Inr (h m) \<Longrightarrow> truth_values_loop f ms res = Inr (res @ map h ms)"
  by (induction ms arbitrary: res) simp_all

lemma covers_evaluate:
  assumes c: "covers vs g S" and S: "\<forall>bs\<in>S. length bs = length vs"
    and vs: "distinct vs" "\<forall>v\<in>set vs. is_variable v = Inr True"
    and l: "length bs' = length vs"
  shows "evaluate g (zip vs bs') = Inr (Some (bs' \<in> S))"
proof -
  from c have cg: "constructed g" and vg: "variables g = Inr (set vs)"
    and sg: "\<And>val. standard_semantics g val
                 = (\<exists>bs\<in>S. \<forall>v\<in>set vs. val v = truthy (dict_get (zip vs bs) v))"
    by (simp_all add: covers_def)
  have m: "is_model (zip vs bs') = Inr True" using vs(2) l by (rule is_model_zip)
  have k: "set vs \<subseteq> set (map fst (zip vs bs'))" using l by simp
  have "standard_semantics g (\<lambda>v. dict_get (zip vs bs') v = Some True) = (bs' \<in> S)"
  proof -
    have "(\<forall>v\<in>set vs. (dict_get (zip vs bs') v = Some True) = truthy (dict_get (zip vs bs) v))
        = (bs' = bs)" if "bs \<in> S" for bs
      using zip_agree_iff[of vs bs bs'] S that l vs(1) by simp
    then show ?thesis unfolding sg by auto
  qed
  with evaluate_eq[OF cg m vg k] show ?thesis by simp
qed

lemma zip_True_nth:
  assumes inj: "\<And>i j. i < length P \<Longrightarrow> j < length P \<Longrightarrow> P ! i = P ! j \<Longrightarrow> i = j"
    and l: "length vals = length P" and i: "i < length P"
  shows "((P ! i, True) \<in> set (zip P vals)) = vals ! i"
proof
  assume "(P ! i, True) \<in> set (zip P vals)"
  then obtain j where j: "j < length P" "P ! j = P ! i" "vals ! j = True"
    using l by (auto simp: set_zip)
  with inj[OF j(1) i] show "vals ! i" by simp
next
  assume "vals ! i"
  with i l show "(P ! i, True) \<in> set (zip P vals)"
    by (auto simp: set_zip)
qed

lemma synthesize_loop_all_False:
  "True \<notin> set (take (length ms) (drop k vals)) \<Longrightarrow> k + length ms \<le> length vals \<Longrightarrow>
   synthesize_loop (enumerate k ms) vals is_first cur = Inr cur"
proof (induction ms arbitrary: k)
  case Nil
  then show ?case by simp
next
  case (Cons m ms)
  from Cons.prems(2) have k: "k < length vals" by simp
  then have dk: "drop k vals = vals ! k # drop (Suc k) vals"
    by (simp add: Cons_nth_drop_Suc)
  with Cons.prems(1) have "\<not> vals ! k" "True \<notin> set (take (length ms) (drop (Suc k) vals))"
    by auto
  with Cons.IH[of "Suc k"] Cons.prems(2) k show ?case by simp
qed

lemma contradiction_formula:
  assumes v: "is_variable v = Inr True"
  shows "Formula_init v None None = Inr (Formula v None None)"
    and "Formula_init ''~'' (Some (Formula v None None)) None
           = Inr (Formula ''~'' (Some (Formula v None None)) None)"
    and "Formula_init ''&'' (Some (Formula v None None))
             (Some (Formula ''~'' (Some (Formula v None None)) None))
           = Inr (Formula ''&'' (Some (Formula v None None))
                    (Some (Formula ''~'' (Some (Formula v None None)) None)))"
    and "constructed (Formula ''&'' (Some (Formula v None None))
                    (Some (Formula ''~'' (Some (Formula v None None)) None)))"
    and "variables (Formula ''&'' (Some (Formula v None None))
                    (Some (Formula ''~'' (Some (Formula v None None)) None))) = Inr {v}"
    and "standard_semantics (Formula ''&'' (Some (Formula v None None))
                    (Some (Formula ''~'' (Some (Formula v None None)) None))) val = False"
proof -
  have b: "is_binary ''&''" by (simp add: is_binary_def)
  show "Formula_init v None None = Inr (Formula v None None)"
    using v by (rule Formula_init_variable)
  show "Formula_init ''~'' (Some (Formula v None None)) None
           = Inr (Formula ''~'' (Some (Formula v None None)) None)"
    by (rule Formula_init_unary)
  show "Formula_init ''&'' (Some (Formula v None None))
             (Some (Formula ''~'' (Some (Formula v None None)) None))
           = Inr (Formula ''&'' (Some (Formula v None None))
                    (Some (Formula ''~'' (Some (Formula v None None)) None)))"
    using b by (rule Formula_init_binary)
  show "constructed (Formula ''&'' (Some (Formula v None None))
                    (Some (Formula ''~'' (Some (Formula v None None)) None)))"
    using v by (simp add: Formula_init_variable Formula_init_unary Formula_init_binary[OF b])
  show "variables (Formula ''&'' (Some (Formula v None None))
                    (Some (Formula ''~'' (Some (Formula v None None)) None))) = Inr {v}"
    using v by (simp add: is_variable_Cons is_constant_def is_unary_def)
  show "standard_semantics (Formula ''&'' (Some (Formula v None None))
                    (Some (Formula ''~'' (Some (Formula v None None)) None))) val = False"
    by simp
qed

section \<open>Properties of the token classifiers\<close>

text \<open>
  C10: \<^verbatim>\<open>is_variable\<close> is not total over arbitrary text.  On the empty string it raises
  \<^verbatim>\<open>IndexError\<close> instead of returning \<^verbatim>\<open>False\<close>, and it returns a truth value exactly on
  the non-empty strings.
\<close>

theorem is_variable_partial:
  "is_variable [] = Inl IndexError \<and> (\<forall>s. (\<exists>b. is_variable s = Inr b) = (s \<noteq> []))"
  by (auto simp: is_variable_def split: list.splits)

section \<open>Properties of the model enumeration\<close>

text \<open>
  C9: \<^verbatim>\<open>all_models\<close> on the empty list of variables succeeds and returns exactly one
  model, the empty dictionary; it raises nothing.
\<close>

theorem all_models_empty: "all_models [] = Inr [[]]"
  by (simp add: all_models_def itertools_product_def cur_dict_of_def)

text \<open>
  C3: for a list of \<open>n\<close> distinct variable names, \<^verbatim>\<open>all_models\<close> returns exactly \<open>2 ^ n\<close>
  models.  The model at index \<open>i\<close> assigns to the variable at position \<open>j\<close> bit \<open>n - 1 - j\<close>
  of \<open>i\<close>, so the first variable is the most significant bit; the value rows are in
  strictly increasing lexicographic order with \<^verbatim>\<open>False\<close> before \<^verbatim>\<open>True\<close>.  On
  \<^verbatim>\<open>['p', 'q']\<close> the result is the four models of the docstring, in that order.
\<close>

theorem all_models_order:
  assumes "distinct vs" and "\<forall>v\<in>set vs. is_variable v = Inr True"
  shows "(\<exists>ms. all_models vs = Inr ms \<and> length ms = 2 ^ length vs
            \<and> (\<forall>i<2 ^ length vs.
                  ms ! i = zip vs (map (\<lambda>j. bit i (length vs - Suc j)) [0..<length vs]))
            \<and> (\<forall>i j. i < j \<and> j < 2 ^ length vs \<longrightarrow>
                  (map snd (ms ! i), map snd (ms ! j)) \<in> lexord {(False, True)}))
         \<and> all_models [''p'', ''q''] =
             Inr [[(''p'', False), (''q'', False)], [(''p'', False), (''q'', True)],
                  [(''p'', True), (''q'', False)], [(''p'', True), (''q'', True)]]"
proof -
  let ?P = "itertools_product [False, True] (length vs)"
  let ?ms = "map (zip vs) ?P"
  have a: "all_models vs = Inr ?ms" using assms by (rule all_models_eq)
  have b: "length ?ms = 2 ^ length vs" by (simp add: length_itertools_product)
  have c: "?ms ! i = zip vs (map (\<lambda>j. bit i (length vs - Suc j)) [0..<length vs])"
    if "i < 2 ^ length vs" for i
    using that by (simp add: length_itertools_product nth_itertools_product)
  have d: "(map snd (?ms ! i), map snd (?ms ! j)) \<in> lexord {(False, True)}"
    if "i < j" "j < 2 ^ length vs" for i j
  proof -
    from that have i: "i < 2 ^ length vs" by simp
    from i that(2) have "map snd (?ms ! i) = ?P ! i" "map snd (?ms ! j) = ?P ! j"
      by (simp_all add: length_itertools_product length_nth_itertools_product)
    with itertools_product_lex[OF that] show ?thesis by simp
  qed
  have e: "all_models [''p'', ''q''] =
             Inr [[(''p'', False), (''q'', False)], [(''p'', False), (''q'', True)],
                  [(''p'', True), (''q'', False)], [(''p'', True), (''q'', True)]]"
    by code_simp
  from a b c d e show ?thesis by blast
qed

theorem all_models_order_witness:
  "distinct [''q'', ''p'', ''r'']
   \<and> (\<exists>ms. all_models [''q'', ''p'', ''r''] = Inr ms \<and> length ms = 8
          \<and> ms ! 5 = [(''q'', True), (''p'', False), (''r'', True)]
          \<and> (map snd (ms ! 2), map snd (ms ! 5)) \<in> lexord {(False, True)})"
proof -
  have h1: "distinct [''q'', ''p'', ''r'']" by simp
  have h2: "\<forall>v\<in>set [''q'', ''p'', ''r'']. is_variable v = Inr True"
    by (simp add: is_variable_Cons)
  from all_models_order[OF h1 h2] obtain ms where
    a: "all_models [''q'', ''p'', ''r''] = Inr ms" and
    b: "length ms = 2 ^ length [''q'', ''p'', ''r'']" and
    c: "\<forall>i<2 ^ length [''q'', ''p'', ''r''].
          ms ! i = zip [''q'', ''p'', ''r'']
            (map (\<lambda>j. bit i (length [''q'', ''p'', ''r''] - Suc j)) [0..<length [''q'', ''p'', ''r'']])" and
    d: "\<forall>i j. i < j \<and> j < 2 ^ length [''q'', ''p'', ''r''] \<longrightarrow>
          (map snd (ms ! i), map snd (ms ! j)) \<in> lexord {(False, True)}"
    by blast
  from c have e: "ms ! 5 = [(''q'', True), (''p'', False), (''r'', True)]"
    by (simp add: bit_0)
  from d have f: "(map snd (ms ! 2), map snd (ms ! 5)) \<in> lexord {(False, True)}" by simp
  from h1 a b e f show ?thesis by simp
qed

section \<open>Properties of evaluation\<close>

text \<open>
  C4: for every constructed formula and every model that covers its variables,
  \<^verbatim>\<open>evaluate\<close> returns the value of the standard truth-functional semantics: a variable
  is looked up in the model, \<^verbatim>\<open>T\<close> and \<^verbatim>\<open>F\<close> are true and false, \<^verbatim>\<open>~\<close> negates its operand,
  \<^verbatim>\<open>&\<close> is conjunction, \<^verbatim>\<open>|\<close> is disjunction and \<^verbatim>\<open>->\<close> is material implication.  The
  formula parsed from \<^verbatim>\<open>~(p&q76)\<close> is true in the model with \<^verbatim>\<open>p\<close> true and \<^verbatim>\<open>q76\<close> false
  and false in the model with both true.
\<close>

theorem evaluate_standard:
  assumes "constructed f" and "is_model m = Inr True"
    and "variables f = Inr vs" and "vs \<subseteq> set (map fst m)"
  shows "evaluate f m = Inr (Some (standard_semantics f (\<lambda>v. dict_get m v = Some True)))
    \<and> parse ''~(p&q76)'' =
        Inr (Some (Formula ''~''
          (Some (Formula ''&'' (Some (Formula ''p'' None None))
                               (Some (Formula ''q76'' None None))))
          None))
    \<and> evaluate
        (Formula ''~''
          (Some (Formula ''&'' (Some (Formula ''p'' None None))
                               (Some (Formula ''q76'' None None))))
          None)
        [(''p'', True), (''q76'', False)] = Inr (Some True)
    \<and> evaluate
        (Formula ''~''
          (Some (Formula ''&'' (Some (Formula ''p'' None None))
                               (Some (Formula ''q76'' None None))))
          None)
        [(''p'', True), (''q76'', True)] = Inr (Some False)"
proof -
  have a: "evaluate f m = Inr (Some (standard_semantics f (\<lambda>v. dict_get m v = Some True)))"
    using assms by (rule evaluate_eq)
  have b: "parse ''~(p&q76)'' =
        Inr (Some (Formula ''~''
          (Some (Formula ''&'' (Some (Formula ''p'' None None))
                               (Some (Formula ''q76'' None None))))
          None))"
    by code_simp
  have c: "evaluate
        (Formula ''~''
          (Some (Formula ''&'' (Some (Formula ''p'' None None))
                               (Some (Formula ''q76'' None None))))
          None)
        [(''p'', True), (''q76'', False)] = Inr (Some True)"
    by code_simp
  have d: "evaluate
        (Formula ''~''
          (Some (Formula ''&'' (Some (Formula ''p'' None None))
                               (Some (Formula ''q76'' None None))))
          None)
        [(''p'', True), (''q76'', True)] = Inr (Some False)"
    by code_simp
  from a b c d show ?thesis by simp
qed

theorem evaluate_standard_witness:
  "constructed (Formula ''->'' (Some (Formula ''x'' None None))
                  (Some (Formula ''~'' (Some (Formula ''y2'' None None)) None)))
   \<and> is_model [(''y2'', True), (''x'', True)] = Inr True
   \<and> variables (Formula ''->'' (Some (Formula ''x'' None None))
                  (Some (Formula ''~'' (Some (Formula ''y2'' None None)) None)))
       = Inr {''x'', ''y2''}
   \<and> evaluate (Formula ''->'' (Some (Formula ''x'' None None))
                  (Some (Formula ''~'' (Some (Formula ''y2'' None None)) None)))
        [(''y2'', True), (''x'', True)] = Inr (Some False)"
proof -
  let ?f = "Formula ''->'' (Some (Formula ''x'' None None))
                  (Some (Formula ''~'' (Some (Formula ''y2'' None None)) None))"
  let ?m = "[(''y2'', True), (''x'', True)]"
  have h1: "constructed ?f" by code_simp
  have h2: "is_model ?m = Inr True" by code_simp
  have h3: "variables ?f = Inr {''x'', ''y2''}"
    by (auto simp: is_variable_Cons is_constant_def is_unary_def digit_char_def)
  have h4: "{''x'', ''y2''} \<subseteq> set (map fst ?m)" by simp
  from evaluate_standard[OF h1 h2 h3 h4]
  have "evaluate ?f ?m = Inr (Some (standard_semantics ?f (\<lambda>v. dict_get ?m v = Some True)))"
    by simp
  then have "evaluate ?f ?m = Inr (Some False)" by (simp add: dict_get_def)
  with h1 h2 h3 show ?thesis by blast
qed

section \<open>Properties of synthesis\<close>

text \<open>
  C1, as the code has it: for every non-empty list \<open>V\<close> of distinct variable names and
  every list \<open>T\<close> of \<open>2 ^ |V|\<close> truth values, \<^verbatim>\<open>synthesize(V, T)\<close> returns a formula whose
  truth values over \<^verbatim>\<open>all_models(V)\<close> are exactly \<open>T\<close>.  When no entry of \<open>T\<close> is true
  the formula returned is the fixed contradiction \<^verbatim>\<open>(v&~v)\<close> on the first variable, false
  in every model of \<^verbatim>\<open>all_models(V)\<close>.
\<close>

theorem synthesize_truth_table:
  assumes ne: "vars \<noteq> []" and d: "distinct vars"
    and v: "\<forall>v\<in>set vars. is_variable v = Inr True"
    and l: "length vals = 2 ^ length vars"
  shows "\<exists>f ms. synthesize vars vals = Inr f \<and> all_models vars = Inr ms
           \<and> truth_values f ms = Inr (map Some vals)
           \<and> (True \<notin> set vals \<longrightarrow>
                f = Formula ''&'' (Some (Formula (vars ! 0) None None))
                      (Some (Formula ''~'' (Some (Formula (vars ! 0) None None)) None))
                \<and> (\<forall>m\<in>set ms. evaluate f m = Inr (Some False)))"
proof -
  let ?n = "length vars"
  let ?P = "itertools_product [False, True] ?n"
  let ?ms = "map (zip vars) ?P"
  have am: "all_models vars = Inr ?ms" using d v by (rule all_models_eq)
  have lP: "length ?P = length vals" using l by (simp add: length_itertools_product)
  have eP: "\<forall>bs\<in>set ?P. length bs = ?n"
    by (auto simp: in_set_conv_nth length_itertools_product length_nth_itertools_product)
  have lms: "length ?ms = length vals" using lP by simp
  show ?thesis
  proof (cases "True \<in> set vals")
    case False
    let ?v0 = "vars ! 0"
    let ?f = "Formula ''&'' (Some (Formula ?v0 None None))
                (Some (Formula ''~'' (Some (Formula ?v0 None None)) None))"
    from ne v have v0: "is_variable ?v0 = Inr True" and v0in: "?v0 \<in> set vars" by simp_all
    note cf = contradiction_formula[OF v0]
    from False lms have "synthesize_loop (enumerate 0 ?ms) vals True None = Inr None"
      by (intro synthesize_loop_all_False) simp_all
    with ne am cf(1,2,3) have sy: "synthesize vars vals = Inr ?f"
      by (simp add: synthesize_def)
    have ev: "evaluate ?f m = Inr (Some False)" if "m \<in> set ?ms" for m
    proof -
      from that eP obtain bs where m: "m = zip vars bs" and lb: "length bs = ?n" by auto
      have im: "is_model m = Inr True" unfolding m using v lb by (rule is_model_zip)
      have "{?v0} \<subseteq> set (map fst m)" using m lb v0in by simp
      from evaluate_eq[OF cf(4) im cf(5) this] show ?thesis by (simp only: cf(6))
    qed
    then have "truth_values ?f ?ms = Inr (map (\<lambda>m. Some False) ?ms)"
      unfolding truth_values_def using truth_values_loop_map[of ?ms ?f "\<lambda>m. Some False" "[]"]
      by simp
    also have "map (\<lambda>m. Some False) ?ms = map Some vals"
    proof (rule nth_equalityI)
      show "length (map (\<lambda>m. Some False) ?ms) = length (map Some vals)" using lms by simp
    next
      fix i assume "i < length (map (\<lambda>m. Some False) ?ms)"
      with lms have i: "i < length vals" by simp
      with False have "\<not> vals ! i" using nth_mem by fastforce
      with i lms show "map (\<lambda>m. Some False) ?ms ! i = map Some vals ! i" by simp
    qed
    finally have tv: "truth_values ?f ?ms = Inr (map Some vals)" .
    from sy am tv ev show ?thesis by blast
  next
    case True
    let ?S = "{bs. (bs, True) \<in> set (zip ?P vals)}"
    from synthesize_loop_covers[OF ne v eP, of 0 vals True None "{}"] lP
    obtain cur' where
      lc: "synthesize_loop (enumerate 0 ?ms) vals True None = Inr cur'" and
      cc: "case cur' of
          None \<Rightarrow> (None :: formula option) = None
                   \<and> True \<notin> set (take (length ?P) (drop 0 vals))
        | Some g' \<Rightarrow> covers vars g' ({} \<union> {bs. (bs, True) \<in> set (zip ?P (drop 0 vals))})"
      by auto
    from cc True lP obtain g where g: "cur' = Some g" and cg: "covers vars g ?S"
      by (cases cur') simp_all
    from lc g have lg: "synthesize_loop (enumerate 0 ?ms) vals True None = Inr (Some g)"
      by simp
    from ne am lg have sy: "synthesize vars vals = Inr g" by (simp add: synthesize_def)
    have lS: "\<forall>bs\<in>?S. length bs = ?n" using eP by (auto dest: set_zip_leftD)
    have ev: "evaluate g m = Inr (Some (map snd m \<in> ?S))" if "m \<in> set ?ms" for m
    proof -
      from that eP obtain bs where m: "m = zip vars bs" and lb: "length bs = ?n" by auto
      from covers_evaluate[OF cg lS d v lb] m lb show ?thesis by simp
    qed
    then have "truth_values g ?ms = Inr (map (\<lambda>m. Some (map snd m \<in> ?S)) ?ms)"
      unfolding truth_values_def
      using truth_values_loop_map[of ?ms g "\<lambda>m. Some (map snd m \<in> ?S)" "[]"] by simp
    also have "map (\<lambda>m. Some (map snd m \<in> ?S)) ?ms = map Some vals"
    proof (rule nth_equalityI)
      show "length (map (\<lambda>m. Some (map snd m \<in> ?S)) ?ms) = length (map Some vals)"
        using lms by simp
    next
      fix i assume "i < length (map (\<lambda>m. Some (map snd m \<in> ?S)) ?ms)"
      with lP have i: "i < length ?P" by simp
      then have i2: "i < 2 ^ ?n" by (simp add: length_itertools_product)
      have "map snd (zip vars (?P ! i)) = ?P ! i"
        using length_nth_itertools_product[OF i2] by simp
      moreover have "((?P ! i, True) \<in> set (zip ?P vals)) = vals ! i"
      proof (rule zip_True_nth)
        fix a b assume "a < length ?P" "b < length ?P" "?P ! a = ?P ! b"
        then show "a = b"
          using itertools_product_inj[of a ?n b] by (simp add: length_itertools_product)
      next
        show "length vals = length ?P" using lP by simp
      next
        show "i < length ?P" by (rule i)
      qed
      ultimately show "map (\<lambda>m. Some (map snd m \<in> ?S)) ?ms ! i = map Some vals ! i"
        using i lP by simp
    qed
    finally have tv: "truth_values g ?ms = Inr (map Some vals)" .
    from sy am tv True show ?thesis by blast
  qed
qed

theorem synthesize_truth_table_witness:
  "[''p'', ''q''] \<noteq> [] \<and> distinct [''p'', ''q'']
   \<and> is_variable ''p'' = Inr True \<and> is_variable ''q'' = Inr True
   \<and> length [False, False, False, False] = (2::nat) ^ length [''p'', ''q'']
   \<and> True \<notin> set [False, False, False, False]
   \<and> synthesize [''p'', ''q''] [False, False, False, False] =
        Inr (Formula ''&'' (Some (Formula ''p'' None None))
               (Some (Formula ''~'' (Some (Formula ''p'' None None)) None)))
   \<and> truth_values
        (Formula ''&'' (Some (Formula ''p'' None None))
               (Some (Formula ''~'' (Some (Formula ''p'' None None)) None)))
        [[(''p'', False), (''q'', False)], [(''p'', False), (''q'', True)],
         [(''p'', True), (''q'', False)], [(''p'', True), (''q'', True)]]
      = Inr [Some False, Some False, Some False, Some False]
   \<and> (\<exists>f. synthesize [''p'', ''q''] [True, False, False, True] = Inr f
          \<and> truth_values f
               [[(''p'', False), (''q'', False)], [(''p'', False), (''q'', True)],
                [(''p'', True), (''q'', False)], [(''p'', True), (''q'', True)]]
             = Inr [Some True, Some False, Some False, Some True])"
proof -
  have h1: "[''p'', ''q''] \<noteq> []" by simp
  have h2: "distinct [''p'', ''q'']" by simp
  have h3: "\<forall>v\<in>set [''p'', ''q'']. is_variable v = Inr True"
    by (simp add: is_variable_Cons)
  have h4: "length [False, False, False, False] = (2::nat) ^ length [''p'', ''q'']" by simp
  have h5: "length [True, False, False, True] = (2::nat) ^ length [''p'', ''q'']" by simp
  have h6: "True \<notin> set [False, False, False, False]" by simp
  have am: "all_models [''p'', ''q''] =
      Inr [[(''p'', False), (''q'', False)], [(''p'', False), (''q'', True)],
           [(''p'', True), (''q'', False)], [(''p'', True), (''q'', True)]]"
    by code_simp
  from synthesize_truth_table[OF h1 h2 h3 h4] am h6
  have a: "synthesize [''p'', ''q''] [False, False, False, False] =
        Inr (Formula ''&'' (Some (Formula ''p'' None None))
               (Some (Formula ''~'' (Some (Formula ''p'' None None)) None)))
     \<and> truth_values
        (Formula ''&'' (Some (Formula ''p'' None None))
               (Some (Formula ''~'' (Some (Formula ''p'' None None)) None)))
        [[(''p'', False), (''q'', False)], [(''p'', False), (''q'', True)],
         [(''p'', True), (''q'', False)], [(''p'', True), (''q'', True)]]
      = Inr [Some False, Some False, Some False, Some False]"
    by auto
  from synthesize_truth_table[OF h1 h2 h3 h5] am
  have b: "\<exists>f. synthesize [''p'', ''q''] [True, False, False, True] = Inr f
          \<and> truth_values f
               [[(''p'', False), (''q'', False)], [(''p'', False), (''q'', True)],
                [(''p'', True), (''q'', False)], [(''p'', True), (''q'', True)]]
             = Inr [Some True, Some False, Some False, Some True]"
    by auto
  from h3 have h3': "is_variable ''p'' = Inr True \<and> is_variable ''q'' = Inr True" by simp
  from h1 h2 h3' h4 h6 a b show ?thesis by blast
qed

text \<open>
  The names have to be distinct.  With the list \<^verbatim>\<open>['p', 'p']\<close> the four assignments
  collapse to models over the one key \<^verbatim>\<open>p\<close>, and for the table
  \<^verbatim>\<open>[True, False, False, False]\<close> the synthesized formula \<^verbatim>\<open>~p\<close> has the truth values
  \<^verbatim>\<open>[True, False, True, False]\<close>.
\<close>

theorem synthesize_duplicate_counterexample:
  "[''p'', ''p''] \<noteq> []
   \<and> is_variable ''p'' = Inr True
   \<and> length [True, False, False, False] = (2::nat) ^ length [''p'', ''p'']
   \<and> synthesize [''p'', ''p''] [True, False, False, False]
        = Inr (Formula ''~'' (Some (Formula ''p'' None None)) None)
   \<and> all_models [''p'', ''p'']
        = Inr [[(''p'', False)], [(''p'', True)], [(''p'', False)], [(''p'', True)]]
   \<and> truth_values (Formula ''~'' (Some (Formula ''p'' None None)) None)
        [[(''p'', False)], [(''p'', True)], [(''p'', False)], [(''p'', True)]]
        = Inr [Some True, Some False, Some True, Some False]
   \<and> [Some True, Some False, Some True, Some False] \<noteq> map Some [True, False, False, False]"
  by code_simp

section \<open>Properties of the parser\<close>

text \<open>
  C8: \<^verbatim>\<open>is_formula\<close> is total: on every string it returns a truth value and raises
  nothing.  It returns \<^verbatim>\<open>True\<close> exactly when \<^verbatim>\<open>_parse_prefix\<close> yields a formula and the
  empty suffix.  It is \<^verbatim>\<open>False\<close> on \<^verbatim>\<open>(p&q\<close> and on \<^verbatim>\<open>->p\<close>, and parsing the empty
  string gives \<^verbatim>\<open>None\<close> with an error message, not a formula.
\<close>

theorem is_formula_total:
  "(\<exists>b. is_formula s = Inr b)
   \<and> (is_formula s = Inr True) = (\<exists>f. parse_prefix s = Inr (Some f, []))
   \<and> is_formula ''(p&q'' = Inr False
   \<and> is_formula ''->p'' = Inr False
   \<and> parse_prefix [] = Inr (None, ''Error, empty string'')"
proof -
  obtain fo r where p: "parse_prefix s = Inr (fo, r)" "fo = None \<longrightarrow> r \<noteq> []"
    using parse_prefix_returns by blast
  have a: "\<exists>b. is_formula s = Inr b" using p by (simp add: is_formula_def)
  have b: "(is_formula s = Inr True) = (\<exists>f. parse_prefix s = Inr (Some f, []))"
    using p by (cases fo) (auto simp: is_formula_def)
  have "parse_prefix ''p&q'' = Inr (Some (Formula ''p'' None None), ''&q'')"
    by (simp add: parse_prefix_variable is_variable_Cons digit_char_def)
  moreover have "parse_operator ''&q'' = (Some ''&'', ''q'')"
    by (simp add: parse_operator_def is_binary_def)
  moreover have "parse_prefix ''q'' = Inr (Some (Formula ''q'' None None), [])"
    by (simp add: parse_prefix_variable is_variable_Cons)
  ultimately have c: "is_formula ''(p&q'' = Inr False"
    by (simp add: is_formula_def parse_prefix_paren)
  have d: "is_formula ''->p'' = Inr False"
    by (simp add: is_formula_def parse_prefix_other is_variable_Cons is_constant_def)
  show ?thesis using a b c d by (simp add: parse_prefix_Nil)
qed

text \<open>
  C2: for every constructed formula \<open>f\<close>, the string \<^verbatim>\<open>str(f)\<close> is accepted by
  \<^verbatim>\<open>is_formula\<close>, and \<^verbatim>\<open>parse(str(f))\<close> returns a formula equal to \<open>f\<close>: the same tree,
  hence equal under \<^verbatim>\<open>__eq__\<close>, which compares the string representations.
\<close>

theorem parse_repr_round_trip:
  assumes "constructed f"
  shows "\<exists>s g. repr f = Inr s \<and> is_formula s = Inr True \<and> parse s = Inr (Some g)
            \<and> formula_eq g f = Inr True \<and> g = f"
proof -
  from repr_parse_prefix[OF assms] obtain s where
    s: "repr f = Inr s" and
    p: "\<forall>rest. rest = [] \<or> \<not> digit_char (hd rest) \<longrightarrow>
          parse_prefix (s @ rest) = Inr (Some f, rest)"
    by blast
  from p have pp: "parse_prefix s = Inr (Some f, [])" by force
  then have "is_formula s = Inr True" "parse s = Inr (Some f)"
    by (simp_all add: is_formula_def parse_def)
  moreover from s have "formula_eq f f = Inr True" by (simp add: formula_eq_def)
  ultimately show ?thesis using s by blast
qed

theorem parse_repr_round_trip_witness:
  "constructed
     (Formula ''->''
        (Some (Formula ''|'' (Some (Formula ''x12'' None None)) (Some (Formula ''T'' None None))))
        (Some (Formula ''~'' (Some (Formula ''z'' None None)) None)))
   \<and> repr
     (Formula ''->''
        (Some (Formula ''|'' (Some (Formula ''x12'' None None)) (Some (Formula ''T'' None None))))
        (Some (Formula ''~'' (Some (Formula ''z'' None None)) None)))
       = Inr ''((x12|T)->~z)''
   \<and> is_formula ''((x12|T)->~z)'' = Inr True
   \<and> parse ''((x12|T)->~z)'' = Inr (Some
     (Formula ''->''
        (Some (Formula ''|'' (Some (Formula ''x12'' None None)) (Some (Formula ''T'' None None))))
        (Some (Formula ''~'' (Some (Formula ''z'' None None)) None))))"
proof -
  let ?f = "Formula ''->''
        (Some (Formula ''|'' (Some (Formula ''x12'' None None)) (Some (Formula ''T'' None None))))
        (Some (Formula ''~'' (Some (Formula ''z'' None None)) None))"
  have h: "constructed ?f" by code_simp
  have r: "repr ?f = Inr ''((x12|T)->~z)''" by code_simp
  from parse_repr_round_trip[OF h] r
  have "is_formula ''((x12|T)->~z)'' = Inr True \<and> parse ''((x12|T)->~z)'' = Inr (Some ?f)"
    by auto
  with h r show ?thesis by blast
qed

section \<open>The functions whose bodies stop after their assertions\<close>

text \<open>
  C5: \<^verbatim>\<open>substitute_operators\<close> on the formula parsed from \<^verbatim>\<open>((x&y)&~z)\<close> with the map
  sending \<^verbatim>\<open>&\<close> to the template parsed from \<^verbatim>\<open>~(~p|~q)\<close>.  The docstring gives the result
  \<^verbatim>\<open>~(~~(~x|~y)|~~z)\<close>; the function as written passes its assertions and returns
  \<^verbatim>\<open>None\<close>.
\<close>

theorem substitute_operators_returns_None: "parse ''((x&y)&~z)'' =
     Inr (Some (Formula ''&''
       (Some (Formula ''&'' (Some (Formula ''x'' None None)) (Some (Formula ''y'' None None))))
       (Some (Formula ''~'' (Some (Formula ''z'' None None)) None))))
  \<and> parse ''~(~p|~q)'' =
     Inr (Some (Formula ''~''
       (Some (Formula ''|''
          (Some (Formula ''~'' (Some (Formula ''p'' None None)) None))
          (Some (Formula ''~'' (Some (Formula ''q'' None None)) None))))
       None))
  \<and> substitute_operators
       (Formula ''&''
         (Some (Formula ''&'' (Some (Formula ''x'' None None)) (Some (Formula ''y'' None None))))
         (Some (Formula ''~'' (Some (Formula ''z'' None None)) None)))
       [(''&'', Formula ''~''
          (Some (Formula ''|''
             (Some (Formula ''~'' (Some (Formula ''p'' None None)) None))
             (Some (Formula ''~'' (Some (Formula ''q'' None None)) None))))
          None)]
     = Inr None"
  by code_simp

text \<open>
  C6: \<^verbatim>\<open>substitute_variables\<close> on the docstring's example, the formula parsed from
  \<^verbatim>\<open>((p->p)|r)\<close> with \<^verbatim>\<open>p\<close> sent to \<^verbatim>\<open>(q&r)\<close> and \<^verbatim>\<open>r\<close> to \<^verbatim>\<open>p\<close>.  The docstring gives
  \<^verbatim>\<open>(((q&r)->(q&r))|p)\<close>; the function as written passes its assertions and returns
  \<^verbatim>\<open>None\<close>, so no variable node is replaced.
\<close>

theorem substitute_variables_returns_None: "parse ''((p->p)|r)'' =
     Inr (Some (Formula ''|''
       (Some (Formula ''->'' (Some (Formula ''p'' None None)) (Some (Formula ''p'' None None))))
       (Some (Formula ''r'' None None))))
  \<and> parse ''(q&r)'' =
     Inr (Some (Formula ''&'' (Some (Formula ''q'' None None)) (Some (Formula ''r'' None None))))
  \<and> substitute_variables
       (Formula ''|''
         (Some (Formula ''->'' (Some (Formula ''p'' None None)) (Some (Formula ''p'' None None))))
         (Some (Formula ''r'' None None)))
       [(''p'', Formula ''&'' (Some (Formula ''q'' None None)) (Some (Formula ''r'' None None))),
        (''r'', Formula ''p'' None None)]
     = Inr None"
  by code_simp

text \<open>
  C7: \<^verbatim>\<open>evaluate_inference\<close> on the docstring's rule with the one assumption \<^verbatim>\<open>p\<close> and the
  conclusion \<^verbatim>\<open>q\<close>.  The docstring gives \<^verbatim>\<open>True\<close> in the model where both are false and
  \<^verbatim>\<open>False\<close> in the model where \<^verbatim>\<open>p\<close> is true and \<^verbatim>\<open>q\<close> false; the function as written
  returns \<^verbatim>\<open>None\<close> in both.
\<close>

theorem evaluate_inference_returns_None: "evaluate_inference
       \<lparr>assumptions = [Formula ''p'' None None], conclusion = Formula ''q'' None None\<rparr>
       [(''p'', False), (''q'', False)] = Inr None
   \<and> evaluate_inference
       \<lparr>assumptions = [Formula ''p'' None None], conclusion = Formula ''q'' None None\<rparr>
       [(''p'', True), (''q'', False)] = Inr None"
  by code_simp

end
